theory Spec2Isabelle
  imports Main "HOL-Library.Sublist" "HOL-Library.Multiset" "HOL-Library.Word"
begin

section \<open>Model import: a shallow embedding of mesheryctl's import.go\<close>

text \<open>
  The theory follows \<^verbatim>\<open>mesheryctl/internal/cli/root/model/import.go\<close>. Go strings are byte
  strings (\<^typ>\<open>string\<close>), values decoded from JSON into \<^verbatim>\<open>interface{}\<close> are the datatype
  \<open>json\<close>, a failed type assertion or an index out of range is a value of \<open>panic\<close>, and
  everything written to the log or the console is a list of \<open>event\<close>s.
\<close>

subsection \<open>Loosely typed values\<close>

text \<open>
  What \<^verbatim>\<open>encoding/json\<close> decodes into an \<^verbatim>\<open>interface{}\<close>: nil, bool, float64, string,
  \<^verbatim>\<open>[]interface{}\<close> and \<^verbatim>\<open>map[string]interface{}\<close>. The code only tests the dynamic type of a
  number and never reads it, so the payload of \<open>JNum\<close> is kept as an integer. A Go map is
  an association list read with \<open>mapIndex\<close>; the first binding of a key is the map's.
\<close>

datatype json =
    JNull
  | JBool bool
  | JNum int
  | JStr string
  | JArr "json list"
  | JObj "(string \<times> json) list"

type_synonym gomap = "(string \<times> json) list"

datatype panic = TypeAssertionFailed | IndexOutOfRange

text \<open>\<^verbatim>\<open>m[k]\<close>: the zero value nil for a missing key, also on the nil map.\<close>

definition mapIndex :: "gomap \<Rightarrow> string \<Rightarrow> json" where
  "mapIndex m k = (case map_of m k of None \<Rightarrow> JNull | Some v \<Rightarrow> v)"

text \<open>The one-result assertion \<^verbatim>\<open>x.(T)\<close> panics when the dynamic type is not \<open>T\<close>.\<close>

fun assertString :: "json \<Rightarrow> panic + string" where
  "assertString (JStr s) = Inr s"
| "assertString v = Inl TypeAssertionFailed"

fun assertMap :: "json \<Rightarrow> panic + gomap" where
  "assertMap (JObj m) = Inr m"
| "assertMap v = Inl TypeAssertionFailed"

fun assertSlice :: "json \<Rightarrow> panic + json list" where
  "assertSlice (JArr xs) = Inr xs"
| "assertSlice v = Inl TypeAssertionFailed"

text \<open>The two-result assertion \<^verbatim>\<open>v, _ := x.(T)\<close> yields the zero value of \<open>T\<close> instead.\<close>

fun stringOrZero :: "json \<Rightarrow> string" where
  "stringOrZero (JStr s) = s"
| "stringOrZero v = []"

fun mapOrZero :: "json \<Rightarrow> gomap" where
  "mapOrZero (JObj m) = m"
| "mapOrZero v = []"

text \<open>\<^verbatim>\<open>xs[i]\<close> on a slice panics out of range.\<close>

definition sliceIndex :: "'a list \<Rightarrow> nat \<Rightarrow> panic + 'a" where
  "sliceIndex xs i = (if i < length xs then Inr (xs ! i) else Inl IndexOutOfRange)"

fun bindP :: "panic + 'a \<Rightarrow> ('a \<Rightarrow> panic + 'b) \<Rightarrow> panic + 'b" where
  "bindP (Inl p) f = Inl p"
| "bindP (Inr x) f = f x"

text \<open>A \<^verbatim>\<open>for ... range xs\<close> loop whose body updates a state and may panic.\<close>

fun foldP :: "('a \<Rightarrow> 's \<Rightarrow> panic + 's) \<Rightarrow> 'a list \<Rightarrow> 's \<Rightarrow> panic + 's" where
  "foldP body [] s = Inr s"
| "foldP body (x # xs) s = bindP (body x s) (foldP body xs)"

subsection \<open>Output\<close>

text \<open>
  The presentation sink is outside the file: a call to it is recorded as an event with
  its arguments. \<open>Bold s\<close> is the result of \<^verbatim>\<open>utils.BoldString(s)\<close>, \<open>Val v\<close> an
  \<^verbatim>\<open>interface{}\<close> operand of \<^verbatim>\<open>%v\<close> or \<^verbatim>\<open>%T\<close>.
\<close>

datatype arg = Bold string | Str string | Val json

datatype cast_target = ToMap | ToSlice

datatype cast_error = ErrTypeCast cast_target

datatype event =
    Infof string "arg list"
  | LogError cast_error
  | Println string
  | PrintToTable "string list" "string list list"

text \<open>
  A run of a display function: the events it wrote, and its result or the panic that
  cut it short. Events written before a panic stay written.
\<close>

type_synonym 'a run = "event list \<times> (panic + 'a)"

definition ret :: "'a \<Rightarrow> 'a run" where
  "ret x = ([], Inr x)"

definition emit :: "event \<Rightarrow> unit run" where
  "emit e = ([e], Inr ())"

definition liftP :: "panic + 'a \<Rightarrow> 'a run" where
  "liftP r = ([], r)"

fun bindR :: "'a run \<Rightarrow> ('a \<Rightarrow> 'b run) \<Rightarrow> 'b run" where
  "bindR (es, Inl p) f = (es, Inl p)"
| "bindR (es, Inr x) f = (es @ fst (f x), snd (f x))"

definition thenR :: "unit run \<Rightarrow> 'b run \<Rightarrow> 'b run" where
  "thenR a b = bindR a (\<lambda>u. b)"

fun foldR :: "('a \<Rightarrow> 's \<Rightarrow> 's run) \<Rightarrow> 'a list \<Rightarrow> 's \<Rightarrow> 's run" where
  "foldR body [] s = ret s"
| "foldR body (x # xs) s = bindR (body x s) (foldR body xs)"

definition forEach :: "('a \<Rightarrow> unit run) \<Rightarrow> 'a list \<Rightarrow> unit run" where
  "forEach body xs = foldR (\<lambda>x u. body x) xs ()"

text \<open>
  Meshkit's \<^verbatim>\<open>utils.Cast[K]\<close> is the checked assertion: the value, or an error that the
  caller logs.
\<close>

fun castMap :: "json \<Rightarrow> cast_error + gomap" where
  "castMap (JObj m) = Inr m"
| "castMap v = Inl (ErrTypeCast ToMap)"

fun castSlice :: "json \<Rightarrow> cast_error + json list" where
  "castSlice (JArr xs) = Inr xs"
| "castSlice v = Inl (ErrTypeCast ToSlice)"

subsection \<open>Library functions on strings and paths\<close>

text \<open>
  \<^verbatim>\<open>filepath.Ext\<close> walks back from the end of the path to the first separator and returns
  the suffix that starts at the first dot it meets. \<open>extFrom path n\<close> is the loop with
  \<^verbatim>\<open>i = n - 1\<close>. The separator is the one of Unix.
\<close>

definition isPathSeparator :: "char \<Rightarrow> bool" where
  "isPathSeparator c = (c = CHR ''/'')"

fun extFrom :: "string \<Rightarrow> nat \<Rightarrow> string" where
  "extFrom path 0 = []"
| "extFrom path (Suc i) =
     (if isPathSeparator (path ! i) then []
      else if path ! i = CHR ''.'' then drop i path
      else extFrom path i)"

definition Ext :: "string \<Rightarrow> string" where
  "Ext path = extFrom path (length path)"

text \<open>
  \<^verbatim>\<open>filepath.Base\<close>: the last element of the path, after the trailing separators are
  stripped; \<^verbatim>\<open>"."\<close> for the empty path and the separator for a path of separators only.
\<close>

definition Base :: "string \<Rightarrow> string" where
  "Base path =
     (if path = [] then ''.''
      else
        let stripped = rev (dropWhile isPathSeparator (rev path));
            element = rev (takeWhile (\<lambda>c. \<not> isPathSeparator c) (rev stripped))
        in if element = [] then ''/'' else element)"

text \<open>\<^verbatim>\<open>strings.Split(s, sep)\<close> for a separator of one byte.\<close>

fun Split :: "string \<Rightarrow> char \<Rightarrow> string list" where
  "Split [] sep = [[]]"
| "Split (c # cs) sep =
     (if c = sep then [] # Split cs sep
      else (case Split cs sep of [] \<Rightarrow> [[c]] | p # ps \<Rightarrow> (c # p) # ps))"

text \<open>
  \<^verbatim>\<open>strings.TrimSpace\<close> removes the leading and trailing white space of Unicode. On the
  UTF-8 bytes of a Go string these are the six ASCII spaces, U+0085 and U+00A0 (two
  bytes), and U+1680, U+2000 to U+200A, U+2028, U+2029, U+202F, U+205F and U+3000 (three
  bytes).
\<close>

definition asciiSpace :: "char \<Rightarrow> bool" where
  "asciiSpace c = (c = CHR 0x09 \<or> c = CHR 0x0A \<or> c = CHR 0x0B \<or> c = CHR 0x0C
     \<or> c = CHR 0x0D \<or> c = CHR 0x20)"

definition space2 :: "char \<Rightarrow> char \<Rightarrow> bool" where
  "space2 a b = (a = CHR 0xC2 \<and> (b = CHR 0x85 \<or> b = CHR 0xA0))"

definition space3 :: "char \<Rightarrow> char \<Rightarrow> char \<Rightarrow> bool" where
  "space3 a b c =
     ((a = CHR 0xE1 \<and> b = CHR 0x9A \<and> c = CHR 0x80)
      \<or> (a = CHR 0xE2 \<and> b = CHR 0x80
           \<and> ((of_char c :: nat) \<in> {0x80..0x8A} \<or> c = CHR 0xA8 \<or> c = CHR 0xA9 \<or> c = CHR 0xAF))
      \<or> (a = CHR 0xE2 \<and> b = CHR 0x81 \<and> c = CHR 0x9F)
      \<or> (a = CHR 0xE3 \<and> b = CHR 0x80 \<and> c = CHR 0x80))"

fun trimLeft :: "string \<Rightarrow> string" where
  "trimLeft [] = []"
| "trimLeft [a] = (if asciiSpace a then [] else [a])"
| "trimLeft [a, b] =
     (if asciiSpace a then trimLeft [b] else if space2 a b then [] else [a, b])"
| "trimLeft (a # b # c # s) =
     (if asciiSpace a then trimLeft (b # c # s)
      else if space2 a b then trimLeft (c # s)
      else if space3 a b c then trimLeft s
      else a # b # c # s)"

text \<open>The same from the end, on the reversed string: the last byte comes first.\<close>

fun trimRightRev :: "string \<Rightarrow> string" where
  "trimRightRev [] = []"
| "trimRightRev [c] = (if asciiSpace c then [] else [c])"
| "trimRightRev [c, b] =
     (if asciiSpace c then trimRightRev [b] else if space2 b c then [] else [c, b])"
| "trimRightRev (c # b # a # s) =
     (if asciiSpace c then trimRightRev (b # a # s)
      else if space2 b c then trimRightRev (a # s)
      else if space3 a b c then trimRightRev s
      else c # b # a # s)"

definition TrimSpace :: "string \<Rightarrow> string" where
  "TrimSpace s = rev (trimRightRev (rev (trimLeft s)))"

text \<open>\<^verbatim>\<open>%d\<close> of a count that is never negative.\<close>

fun showNat :: "nat \<Rightarrow> string" where
  "showNat n =
     (if n < 10 then [''0123456789'' ! n]
      else showNat (n div 10) @ [''0123456789'' ! (n mod 10)])"

declare showNat.simps [simp del]

subsection \<open>The response of the registration service\<close>

text \<open>
  \<^verbatim>\<open>models.RegistryAPIResponse\<close> is declared in the server package; these are the fields
  import.go reads, with the types it reads them at.
\<close>

record EntityCountSummary =
  CompCount :: int
  RelCount :: int
  TotalErrCount :: int

record EntityTypeSummary =
  SuccessfulComponents :: "gomap list"
  SuccessfulRelationships :: "gomap list"
  UnsuccessfulEntityNameWithError :: "json list"

record RegistryAPIResponse =
  ErrMsg :: string
  ModelName :: "string list"
  EntityCount :: EntityCountSummary
  EntityTypeSummary :: EntityTypeSummary

text \<open>
  Two things the Go runtime decides: the order in which \<^verbatim>\<open>range\<close> visits the entries of
  the map \<^verbatim>\<open>relationshipMap\<close> (given here in the order the keys were inserted; Go
  promises no order, so any permutation), and what \<^verbatim>\<open>%s\<close> prints for an operand that is
  not a string.
\<close>

record runtime =
  rangeOrder :: "(string \<times> string list list) list \<Rightarrow> (string \<times> string list list) list"
  formatS :: "json \<Rightarrow> string"

subsection \<open>displayEntities and the gate before it\<close>

definition displayEmtpyModel :: "RegistryAPIResponse \<Rightarrow> bool" where
  "displayEmtpyModel response =
     (if length (ModelName response) \<noteq> 0 \<and> CompCount (EntityCount response) = 0
         \<and> RelCount (EntityCount response) = 0
      then (if TotalErrCount (EntityCount response) = 0 then False else True)
      else True)"

definition displaySummary :: "RegistryAPIResponse \<Rightarrow> unit run" where
  "displaySummary response = emit (Infof ''%s: %s'' [Bold ''SUMMARY'', Str (ErrMsg response)])"

subsection \<open>hasExtension\<close>

definition hasExtension :: "string \<Rightarrow> bool" where
  "hasExtension name =
     (let extension = Ext name
      in extension = ''.json'' \<or> extension = ''.yaml'' \<or> extension = ''.yml''
         \<or> extension = ''.tar.gz'' \<or> extension = ''.tar'' \<or> extension = ''.zip''
         \<or> extension = ''.tgz'')"

subsection \<open>displaySuccessfulComponents\<close>

text \<open>
  One pass of the loop over \<^verbatim>\<open>SuccessfulComponents\<close>. The assertions on the record, its
  \<^verbatim>\<open>Model\<close> and the model's \<^verbatim>\<open>name\<close> have two results; the ones on \<^verbatim>\<open>category\<close> and
  \<^verbatim>\<open>model\<close> inside the model have one and come before the comparison of the names.
\<close>

definition addComponent :: "string \<Rightarrow> gomap \<Rightarrow> string list list \<Rightarrow> panic + string list list" where
  "addComponent modelName component rows =
     (let displayName = stringOrZero (mapIndex component ''DisplayName'');
          modelData = mapOrZero (mapIndex component ''Model'');
          modelDisplayName = stringOrZero (mapIndex modelData ''name'')
      in bindP (assertMap (mapIndex modelData ''category'')) (\<lambda>categoryMap.
           let category = stringOrZero (mapIndex categoryMap ''name'')
           in bindP (assertMap (mapIndex modelData ''model'')) (\<lambda>modelMap.
                let modelVersion = stringOrZero (mapIndex modelMap ''version'')
                in if modelDisplayName = modelName
                   then Inr (rows @ [[displayName, category, modelVersion]])
                   else Inr rows)))"

definition displaySuccessfulComponents :: "RegistryAPIResponse \<Rightarrow> string \<Rightarrow> unit run" where
  "displaySuccessfulComponents response modelName =
     (if length (SuccessfulComponents (EntityTypeSummary response)) > 0
      then bindR (liftP (foldP (addComponent modelName)
                    (SuccessfulComponents (EntityTypeSummary response)) []))
             (\<lambda>rows. if length rows > 0
                then thenR (emit (Println []))
                       (emit (PrintToTable [''Component'', ''Category'', ''Version''] rows))
                else ret ())
      else ret ())"

subsection \<open>displaySuccessfulRelationships\<close>

text \<open>
  The two maps of the function: \<^verbatim>\<open>seen\<close>, a \<^verbatim>\<open>map[string]bool\<close> that reads false where
  nothing was stored, and \<^verbatim>\<open>relationshipMap\<close>, kept in the order its keys were inserted.
\<close>

record relationships =
  seen :: "string \<Rightarrow> bool"
  relationshipMap :: "(string \<times> string list list) list"

text \<open>\<^verbatim>\<open>relationshipMap[key] = append(relationshipMap[key], row)\<close>\<close>

fun appendRow :: "string \<Rightarrow> string list \<Rightarrow> (string \<times> string list list) list
    \<Rightarrow> (string \<times> string list list) list" where
  "appendRow key row [] = [(key, [row])]"
| "appendRow key row ((k, rows) # m) =
     (if k = key then (k, rows @ [row]) # m else (k, rows) # appendRow key row m)"

text \<open>\<^verbatim>\<open>fmt.Sprintf("%s", v)\<close> for an \<^verbatim>\<open>interface{}\<close> operand.\<close>

definition Sprintf_s :: "runtime \<Rightarrow> json \<Rightarrow> string" where
  "Sprintf_s rt v = (case v of JStr s \<Rightarrow> s | _ \<Rightarrow> formatS rt v)"

text \<open>The body of the loop over the selectors of one relationship.\<close>

definition addSelector :: "runtime \<Rightarrow> string \<Rightarrow> string \<Rightarrow> json \<Rightarrow> relationships
    \<Rightarrow> panic + relationships" where
  "addSelector rt kind subtype selector acc =
     bindP (assertMap selector) (\<lambda>selectorMap.
     bindP (assertMap (mapIndex selectorMap ''allow'')) (\<lambda>allow.
     bindP (assertSlice (mapIndex allow ''from'')) (\<lambda>from.
     bindP (assertSlice (mapIndex allow ''to'')) (\<lambda>to.
     bindP (sliceIndex from 0) (\<lambda>from0.
     bindP (assertMap from0) (\<lambda>fromMap.
       let fromComponent = Sprintf_s rt (mapIndex fromMap ''kind'')
       in bindP (sliceIndex to 0) (\<lambda>to0.
          bindP (assertMap to0) (\<lambda>toMap.
            let toComponent = Sprintf_s rt (mapIndex toMap ''kind'');
                key = kind @ ''-'' @ subtype
            in if seen acc (key @ fromComponent @ toComponent) then Inr acc
               else Inr \<lparr>seen = (seen acc)(key @ fromComponent @ toComponent := True),
                         relationshipMap =
                           appendRow key [fromComponent, toComponent] (relationshipMap acc)\<rparr>))))))))"

text \<open>The body of the loop over \<^verbatim>\<open>SuccessfulRelationships\<close>.\<close>

definition addRelationship :: "runtime \<Rightarrow> string \<Rightarrow> gomap \<Rightarrow> relationships
    \<Rightarrow> panic + relationships" where
  "addRelationship rt model rel acc =
     bindP (assertString (mapIndex rel ''Kind'')) (\<lambda>kind.
     bindP (assertString (mapIndex rel ''Subtype'')) (\<lambda>subtype.
     bindP (assertMap (mapIndex rel ''Model'')) (\<lambda>modelMap.
     bindP (assertString (mapIndex modelMap ''name'')) (\<lambda>modelName.
       if modelName \<noteq> model then Inr acc
       else bindP (assertSlice (mapIndex rel ''Selectors'')) (\<lambda>selectors.
              foldP (addSelector rt kind subtype) selectors acc)))))"

text \<open>The body of the loop over \<^verbatim>\<open>relationshipMap\<close>.\<close>

definition displayRelationshipGroup :: "string \<times> string list list \<Rightarrow> unit run" where
  "displayRelationshipGroup entry =
     (case entry of (key, rows) \<Rightarrow>
        if length rows > 0
        then thenR (emit (Println []))
               (let boldRelationships =
                      (if length rows > 1 then ''RELATIONSHIPS:'' else ''RELATIONSHIP:'');
                    parts = Split key CHR ''-''
                in bindR (liftP (sliceIndex parts 0)) (\<lambda>part0.
                   bindR (liftP (sliceIndex parts 1)) (\<lambda>part1.
                     thenR (emit (Infof ''  %s Kind of %s and sub type %s''
                                    [Bold boldRelationships, Str part0, Str part1]))
                       (emit (PrintToTable [''From'', ''To''] rows)))))
        else ret ())"

definition displaySuccessfulRelationships :: "runtime \<Rightarrow> RegistryAPIResponse \<Rightarrow> string \<Rightarrow> unit run" where
  "displaySuccessfulRelationships rt response model =
     (if length (SuccessfulRelationships (EntityTypeSummary response)) > 0
      then bindR (liftP (foldP (addRelationship rt model)
                    (SuccessfulRelationships (EntityTypeSummary response))
                    \<lparr>seen = (\<lambda>k. False), relationshipMap = []\<rparr>))
             (\<lambda>acc. forEach displayRelationshipGroup (rangeOrder rt (relationshipMap acc)))
      else ret ())"

subsection \<open>buildLongDescription\<close>

text \<open>The body of the loop over the description's items: \<open>longDescription\<close> is the state.\<close>

definition addDescriptionItem :: "json \<Rightarrow> string \<Rightarrow> string run" where
  "addDescriptionItem item longDescription =
     (case item of
        JStr str \<Rightarrow> ret (longDescription @ str @ '' '')
      | _ \<Rightarrow> thenR (emit (Infof ''Item in LongDescription is not a string: %v (type %T)''
                              [Val item, Val item]))
               (ret longDescription))"

definition buildLongDescription :: "json \<Rightarrow> string run" where
  "buildLongDescription longDescriptionInterface =
     (case longDescriptionInterface of
        JArr longDescriptionSlice \<Rightarrow>
          bindR (foldR addDescriptionItem longDescriptionSlice [])
            (\<lambda>longDescription. ret (TrimSpace longDescription))
      | _ \<Rightarrow> thenR (emit (Infof
                  ''Type assertion to []interface{} failed for LongDescription: %v (type %T)''
                  [Val longDescriptionInterface, Val longDescriptionInterface]))
               (ret []))"

subsection \<open>buildEntityTypeLine\<close>

text \<open>
  The body of the loop over \<^verbatim>\<open>names\<close>, at index \<open>i\<close>: the state is the pair of
  \<^verbatim>\<open>compCount\<close> and \<^verbatim>\<open>relCount\<close>. \<^verbatim>\<open>continue\<close> returns the state as it is.
\<close>

definition countEntity :: "json list \<Rightarrow> string \<Rightarrow> string \<Rightarrow> nat \<times> json \<Rightarrow> nat \<times> nat
    \<Rightarrow> (nat \<times> nat) run" where
  "countEntity entityTypes longDescription modelName indexed counts =
     (case indexed of (i, name) \<Rightarrow>
      case counts of (compCount, relCount) \<Rightarrow>
        bindR (liftP (if i < length entityTypes then assertString (entityTypes ! i) else Inr []))
          (\<lambda>entityType.
             bindR (if modelName \<noteq> []
                    then bindR (liftP (assertString name)) (\<lambda>n. ret (modelName \<noteq> n))
                    else ret (entityType \<noteq> ''Unknown''))
               (\<lambda>skip.
                  if skip then ret (compCount, relCount)
                  else if entityType = ''Unknown''
                  then bindR (liftP (assertString name)) (\<lambda>n.
                         thenR (emit (Infof
                                  ''\<newline>%s: Import process for file %s encountered error: \<newline>    %s''
                                  [Bold ''ERROR'', Str n, Str longDescription]))
                           (ret (compCount, relCount)))
                  else if entityType = ''component'' then ret (compCount + 1, relCount)
                  else if entityType = ''relationship'' then ret (compCount, relCount + 1)
                  else ret (compCount, relCount))))"

text \<open>The lines after the loop, which compose \<^verbatim>\<open>EntityTypeLine\<close> from the two counts.\<close>

definition entityTypeLine :: "nat \<Rightarrow> nat \<Rightarrow> string" where
  "entityTypeLine compCount relCount =
     (let line0 = [];
          line1 = (if compCount > 0
                   then (let word = (if compCount > 1 then ''entities'' else ''entity'');
                             msg = '' '' @ showNat compCount @ '' '' @ word @ '' of type component''
                         in msg)
                   else line0);
          line2 = (if compCount > 0 \<and> relCount > 0 then line1 @ '' and'' else line1);
          line3 = (if relCount > 0
                   then (let word = (if relCount > 1 then ''entities'' else ''entity'');
                             msg = '' '' @ showNat relCount @ '' '' @ word @ '' of type relationship''
                         in line2 @ msg)
                   else line2)
      in line3)"

definition buildEntityTypeLine :: "json list \<Rightarrow> json list \<Rightarrow> string \<Rightarrow> string \<Rightarrow> string run" where
  "buildEntityTypeLine names entityTypes longDescription modelName =
     bindR (foldR (countEntity entityTypes longDescription modelName) (enumerate 0 names) (0, 0))
       (\<lambda>counts. ret (entityTypeLine (fst counts) (snd counts)))"

subsection \<open>displayUnsuccessfulEntities\<close>

text \<open>
  The body of the loop over \<^verbatim>\<open>UnsuccessfulEntityNameWithError\<close>: each failed cast logs the
  error and goes on to the next record.
\<close>

definition displayUnsuccessfulEntity :: "string \<Rightarrow> json \<Rightarrow> unit run" where
  "displayUnsuccessfulEntity modelName entity =
     (case castMap entity of
        Inl err \<Rightarrow> emit (LogError err)
      | Inr entityMap \<Rightarrow>
     (case castSlice (mapIndex entityMap ''name'') of
        Inl err \<Rightarrow> emit (LogError err)
      | Inr names \<Rightarrow>
     (case castSlice (mapIndex entityMap ''entityType'') of
        Inl err \<Rightarrow> emit (LogError err)
      | Inr entityTypes \<Rightarrow>
     (case castMap (mapIndex entityMap ''error'') of
        Inl err \<Rightarrow> emit (LogError err)
      | Inr errorDetails \<Rightarrow>
          bindR (buildLongDescription (mapIndex errorDetails ''LongDescription''))
            (\<lambda>longDescription.
               bindR (buildEntityTypeLine names entityTypes longDescription modelName)
                 (\<lambda>EntityTypeLine.
                    if EntityTypeLine \<noteq> []
                    then thenR (emit (Println []))
                           (emit (Infof ''  %s: Import did not occur for%s error: \<newline>  %s''
                                    [Bold ''ERROR'', Str EntityTypeLine, Str longDescription]))
                    else ret ()))))))"

definition displayUnsuccessfulEntities :: "RegistryAPIResponse \<Rightarrow> string \<Rightarrow> unit run" where
  "displayUnsuccessfulEntities response modelName =
     (if length (UnsuccessfulEntityNameWithError (EntityTypeSummary response)) > 0
      then forEach (displayUnsuccessfulEntity modelName)
             (UnsuccessfulEntityNameWithError (EntityTypeSummary response))
      else ret ())"

subsection \<open>displayEntitisIfModel and displayEntities\<close>

text \<open>
  The body of the loop that separates the model names: the state is the pair of
  \<^verbatim>\<open>modelsWithoutExtension\<close> and \<^verbatim>\<open>modelsWithExtension\<close>.
\<close>

definition separateModel :: "string list \<times> string list \<Rightarrow> string \<Rightarrow> string list \<times> string list" where
  "separateModel groups model =
     (case groups of (modelsWithoutExtension, modelsWithExtension) \<Rightarrow>
        if model \<noteq> []
        then (if hasExtension model
              then (modelsWithoutExtension, modelsWithExtension @ [model])
              else (modelsWithoutExtension @ [model], modelsWithExtension))
        else (modelsWithoutExtension, modelsWithExtension))"

definition displayModelInfo :: "runtime \<Rightarrow> RegistryAPIResponse \<Rightarrow> string \<Rightarrow> bool \<Rightarrow> unit run" where
  "displayModelInfo rt response model hasExt =
     thenR (if \<not> hasExt
            then emit (Infof ''\<newline>%s: %s'' [Bold ''MODEL'', Str model])
            else ret ())
       (thenR (displaySuccessfulComponents response model)
          (thenR (displaySuccessfulRelationships rt response model)
             (displayUnsuccessfulEntities response model)))"

definition displayEntitisIfModel :: "runtime \<Rightarrow> RegistryAPIResponse \<Rightarrow> unit run" where
  "displayEntitisIfModel rt response =
     (case foldl separateModel ([], []) (ModelName response) of
        (modelsWithoutExtension, modelsWithExtension) \<Rightarrow>
          thenR (forEach (\<lambda>model. displayModelInfo rt response model False) modelsWithoutExtension)
            (forEach (\<lambda>model. displayModelInfo rt response model True) modelsWithExtension))"

definition displayEntities :: "runtime \<Rightarrow> RegistryAPIResponse \<Rightarrow> unit run" where
  "displayEntities rt response =
     (let ok = displayEmtpyModel response
      in if \<not> ok then ret ()
         else thenR (displaySummary response) (displayEntitisIfModel rt response))"

subsection \<open>The import command\<close>

text \<open>
  What the command reads from outside: the file system (\<^verbatim>\<open>os.Stat\<close>, which tells a
  directory from a file, and \<^verbatim>\<open>os.ReadFile\<close>) and the archive of a directory, which
  \<^verbatim>\<open>compressDirectory\<close> builds with meshkit's tar writer and gzip.
\<close>

type_synonym byte = "8 word"

datatype cmd_error =
    ErrNotSpecified
  | ErrTooManyArguments
  | ErrAccessPath
  | ErrReadFile
  | ErrCompressDirectory

record filesystem =
  Stat :: "string \<Rightarrow> bool option"
  ReadFile :: "string \<Rightarrow> byte list option"
  compressDirectory :: "string \<Rightarrow> byte list option"

record ImportRequestBody =
  ModelFile :: "byte list"
  URL :: string
  FileName :: string
  UploadType :: string

text \<open>The \<^verbatim>\<open>Args\<close> check of the command; \<open>location\<close> is the value of the flag.\<close>

definition importModelCmd_Args :: "string \<Rightarrow> string list \<Rightarrow> cmd_error option" where
  "importModelCmd_Args location args =
     (if location = [] \<and> length args = 0 then Some ErrNotSpecified
      else if length args > 1 then Some ErrTooManyArguments
      else None)"

text \<open>The request body that \<^verbatim>\<open>registerModel\<close> builds from its three arguments.\<close>

definition registerModel_body :: "byte list \<Rightarrow> string \<Rightarrow> string \<Rightarrow> ImportRequestBody" where
  "registerModel_body data name dataType =
     \<lparr>ModelFile = data, URL = [], FileName = name, UploadType = dataType\<rparr>"

text \<open>
  \<^verbatim>\<open>RunE\<close> up to its call of \<^verbatim>\<open>registerModel\<close>: the error it returns, or the body that is
  submitted. Cobra runs it only after \<open>importModelCmd_Args\<close> has passed.
\<close>

definition importModelCmd_RunE :: "filesystem \<Rightarrow> string \<Rightarrow> string list \<Rightarrow> cmd_error + ImportRequestBody" where
  "importModelCmd_RunE fs location args =
     (case importModelCmd_Args location args of
        Some err \<Rightarrow> Inl err
      | None \<Rightarrow>
          let path = (if location \<noteq> [] then location else args ! 0)
          in (case Stat fs path of
                None \<Rightarrow> Inl ErrAccessPath
              | Some isDir \<Rightarrow>
                  if isDir
                  then (case compressDirectory fs path of
                          None \<Rightarrow> Inl ErrCompressDirectory
                        | Some tarData \<Rightarrow>
                            Inr (registerModel_body tarData (Base path @ ''.tar.gz'') ''file''))
                  else (case ReadFile fs path of
                          None \<Rightarrow> Inl ErrReadFile
                        | Some fileData \<Rightarrow>
                            Inr (registerModel_body fileData (Base path) ''file''))))"

subsection \<open>The pass over the relationships, entry by entry\<close>

text \<open>
  The loop of \<open>displaySuccessfulRelationships\<close> does two things for each selector: it
  reads the key of the group and the two kinds out of the record (which can panic), and
  it stores them in \<^verbatim>\<open>seen\<close> and \<^verbatim>\<open>relationshipMap\<close> (which cannot). The definitions below
  are the two halves taken apart; that the loop of the source is the one followed by
  the other is proved as \<open>foldP_addRelationship\<close>. An entry is the key
  \<^verbatim>\<open>kind-subtype\<close>, \<^verbatim>\<open>fromComponent\<close> and \<^verbatim>\<open>toComponent\<close>.
\<close>

type_synonym entry = "string \<times> string \<times> string"

text \<open>The lines from the test of \<^verbatim>\<open>seen\<close> to the append.\<close>

definition addEntry :: "relationships \<Rightarrow> entry \<Rightarrow> relationships" where
  "addEntry acc e =
     (case e of (key, fromComponent, toComponent) \<Rightarrow>
        if seen acc (key @ fromComponent @ toComponent) then acc
        else \<lparr>seen = (seen acc)(key @ fromComponent @ toComponent := True),
              relationshipMap =
                appendRow key [fromComponent, toComponent] (relationshipMap acc)\<rparr>)"

text \<open>The lines of the selector loop before them.\<close>

definition selectorEntry :: "runtime \<Rightarrow> string \<Rightarrow> string \<Rightarrow> json \<Rightarrow> panic + entry" where
  "selectorEntry rt kind subtype selector =
     bindP (assertMap selector) (\<lambda>selectorMap.
     bindP (assertMap (mapIndex selectorMap ''allow'')) (\<lambda>allow.
     bindP (assertSlice (mapIndex allow ''from'')) (\<lambda>from.
     bindP (assertSlice (mapIndex allow ''to'')) (\<lambda>to.
     bindP (sliceIndex from 0) (\<lambda>from0.
     bindP (assertMap from0) (\<lambda>fromMap.
     bindP (sliceIndex to 0) (\<lambda>to0.
     bindP (assertMap to0) (\<lambda>toMap.
       Inr (kind @ ''-'' @ subtype,
            Sprintf_s rt (mapIndex fromMap ''kind''),
            Sprintf_s rt (mapIndex toMap ''kind''))))))))))"

fun mapP :: "('a \<Rightarrow> panic + 'b) \<Rightarrow> 'a list \<Rightarrow> panic + 'b list" where
  "mapP f [] = Inr []"
| "mapP f (x # xs) = bindP (f x) (\<lambda>y. bindP (mapP f xs) (\<lambda>ys. Inr (y # ys)))"

text \<open>The entries of one record, and of all records in order, for the current model.\<close>

definition relationshipEntries :: "runtime \<Rightarrow> string \<Rightarrow> gomap \<Rightarrow> panic + entry list" where
  "relationshipEntries rt model rel =
     bindP (assertString (mapIndex rel ''Kind'')) (\<lambda>kind.
     bindP (assertString (mapIndex rel ''Subtype'')) (\<lambda>subtype.
     bindP (assertMap (mapIndex rel ''Model'')) (\<lambda>modelMap.
     bindP (assertString (mapIndex modelMap ''name'')) (\<lambda>modelName.
       if modelName \<noteq> model then Inr []
       else bindP (assertSlice (mapIndex rel ''Selectors'')) (\<lambda>selectors.
              mapP (selectorEntry rt kind subtype) selectors)))))"

definition responseEntries :: "runtime \<Rightarrow> string \<Rightarrow> gomap list \<Rightarrow> panic + entry list" where
  "responseEntries rt model rels =
     bindP (mapP (relationshipEntries rt model) rels) (\<lambda>ess. Inr (concat ess))"

text \<open>The key under which \<^verbatim>\<open>seen\<close> stores an entry, and the rows of a group.\<close>

definition seenKey :: "entry \<Rightarrow> string" where
  "seenKey e = (case e of (key, fromComponent, toComponent) \<Rightarrow> key @ fromComponent @ toComponent)"

definition rowsOf :: "relationships \<Rightarrow> string \<Rightarrow> string list list" where
  "rowsOf acc key = (case map_of (relationshipMap acc) key of None \<Rightarrow> [] | Some rows \<Rightarrow> rows)"

text \<open>The two maps as \<^verbatim>\<open>make\<close> returns them.\<close>

definition noRelationships :: relationships where
  "noRelationships = \<lparr>seen = (\<lambda>k. False), relationshipMap = []\<rparr>"

text \<open>The tables among the events of a report: the rows of each, in order.\<close>

fun tableRows :: "event \<Rightarrow> string list list list" where
  "tableRows (PrintToTable header rows) = [rows]"
| "tableRows e = []"

definition tables :: "event list \<Rightarrow> string list list list" where
  "tables events = concat (map tableRows events)"

subsection \<open>What the specification says, in its own words\<close>



text \<open>
  The entity type the walk of \<open>buildEntityTypeLine\<close> uses at index \<open>i\<close>, whether the entry
  at \<open>i\<close> is counted for the current model, and the entries counted with a given type,
  for names and entity types that are all strings.
\<close>

definition entityTypeAt :: "string list \<Rightarrow> nat \<Rightarrow> string" where
  "entityTypeAt types i = (if i < length types then types ! i else [])"

definition counted :: "string \<Rightarrow> string list \<Rightarrow> string \<Rightarrow> nat \<times> string \<Rightarrow> bool" where
  "counted modelName types ty indexed =
     ((if modelName \<noteq> [] then snd indexed = modelName
       else entityTypeAt types (fst indexed) = ''Unknown'')
      \<and> entityTypeAt types (fst indexed) = ty)"

definition unknownLine :: "string \<Rightarrow> nat \<times> string \<Rightarrow> event" where
  "unknownLine longDescription indexed =
     Infof ''\<newline>%s: Import process for file %s encountered error: \<newline>    %s''
       [Bold ''ERROR'', Str (snd indexed), Str longDescription]"

text \<open>The phrase of the combined error line for given counts.\<close>

definition entityWord :: "nat \<Rightarrow> string" where
  "entityWord n = (if n = 1 then ''entity'' else ''entities'')"

definition summaryPhrase :: "nat \<Rightarrow> nat \<Rightarrow> string" where
  "summaryPhrase c r =
     (if c = 0 then [] else '' '' @ showNat c @ '' '' @ entityWord c @ '' of type component'')
     @ (if 0 < c \<and> 0 < r then '' and'' else [])
     @ (if r = 0 then [] else '' '' @ showNat r @ '' '' @ entityWord r @ '' of type relationship'')"

subsection \<open>Records whose entries are strings\<close>



subsection \<open>Example inputs\<close>

definition exampleRuntime :: runtime where
  "exampleRuntime = \<lparr>rangeOrder = (\<lambda>m. m), formatS = (\<lambda>v. ''%!s'')\<rparr>"

definition noEntities :: EntityTypeSummary where
  "noEntities = \<lparr>SuccessfulComponents = [], SuccessfulRelationships = [],
     UnsuccessfulEntityNameWithError = []\<rparr>"

text \<open>A response that names one model and reports no component, relationship or error.\<close>

definition emptyResponse :: RegistryAPIResponse where
  "emptyResponse = \<lparr>ErrMsg = ''done'', ModelName = [''m''],
     EntityCount = \<lparr>CompCount = 0, RelCount = 0, TotalErrCount = 0\<rparr>,
     EntityTypeSummary = noEntities\<rparr>"

text \<open>A response with entities to report, for the given names and entities.\<close>

definition responseWith :: "string list \<Rightarrow> EntityTypeSummary \<Rightarrow> RegistryAPIResponse" where
  "responseWith names entities = \<lparr>ErrMsg = ''done'', ModelName = names,
     EntityCount = \<lparr>CompCount = 1, RelCount = 1, TotalErrCount = 1\<rparr>,
     EntityTypeSummary = entities\<rparr>"

text \<open>A well-formed relationship record with one selector.\<close>

definition relationshipRecord :: "string \<Rightarrow> string \<Rightarrow> string \<Rightarrow> string \<Rightarrow> string \<Rightarrow> gomap" where
  "relationshipRecord kind subtype model from to =
     [(''Kind'', JStr kind), (''Subtype'', JStr subtype),
      (''Model'', JObj [(''name'', JStr model)]),
      (''Selectors'', JArr [JObj [(''allow'', JObj
          [(''from'', JArr [JObj [(''kind'', JStr from)]]),
           (''to'', JArr [JObj [(''kind'', JStr to)]])])]])]"

text \<open>A well-formed record of unsuccessful entities.\<close>

definition unsuccessfulRecord :: "string list \<Rightarrow> string list \<Rightarrow> string list \<Rightarrow> json" where
  "unsuccessfulRecord names types description =
     JObj [(''name'', JArr (map JStr names)), (''entityType'', JArr (map JStr types)),
           (''error'', JObj [(''LongDescription'', JArr (map JStr description))])]"

text \<open>A file system with one file and one directory.\<close>

definition exampleFiles :: filesystem where
  "exampleFiles =
     \<lparr>Stat = (\<lambda>p. if p = ''/models/a.json'' then Some False
                  else if p = ''/models/dir/'' then Some True else None),
      ReadFile = (\<lambda>p. if p = ''/models/a.json'' then Some [0x7B, 0x7D] else None),
      compressDirectory = (\<lambda>p. if p = ''/models/dir/'' then Some [0x1F, 0x8B] else None)\<rparr>"

text \<open>A well-formed component record, and one that has no \<^verbatim>\<open>Model\<close>.\<close>

definition componentRecord :: "string \<Rightarrow> string \<Rightarrow> string \<Rightarrow> string \<Rightarrow> gomap" where
  "componentRecord displayName model category version =
     [(''DisplayName'', JStr displayName),
      (''Model'', JObj [(''name'', JStr model),
                        (''category'', JObj [(''name'', JStr category)]),
                        (''model'', JObj [(''version'', JStr version)])])]"

definition componentWithoutModel :: gomap where
  "componentWithoutModel = [(''DisplayName'', JStr ''c1'')]"

text \<open>A relationship record that has no \<^verbatim>\<open>Selectors\<close>.\<close>

definition relationshipWithoutSelectors :: gomap where
  "relationshipWithoutSelectors =
     [(''Kind'', JStr ''edge''), (''Subtype'', JStr ''binding''),
      (''Model'', JObj [(''name'', JStr ''m'')])]"

text \<open>
  Three relationship records of the model m with kind edge and subtype binding: the
  first from ab to c, then two from a to bc that differ in another field.
\<close>

definition collidingRelationships :: "gomap list" where
  "collidingRelationships =
     [relationshipRecord ''edge'' ''binding'' ''m'' ''ab'' ''c'',
      relationshipRecord ''edge'' ''binding'' ''m'' ''a'' ''bc'',
      (''Version'', JStr ''v2'') # relationshipRecord ''edge'' ''binding'' ''m'' ''a'' ''bc'']"




section \<open>Properties\<close>

subsection \<open>Runs and loops\<close>


lemma bindR_ret [simp]: "bindR (ret x) f = f x"
  by (simp add: ret_def)

lemma bindR_liftP_Inr [simp]: "bindR (liftP (Inr x)) f = f x"
  by (simp add: liftP_def)

lemma bindR_liftP_Inl [simp]: "bindR (liftP (Inl p)) f = ([], Inl p)"
  by (simp add: liftP_def)

lemma fst_ret [simp]: "fst (ret x) = []"
  by (simp add: ret_def)

lemma snd_ret [simp]: "snd (ret x) = Inr x"
  by (simp add: ret_def)

lemma fst_emit [simp]: "fst (emit e) = [e]"
  by (simp add: emit_def)

lemma snd_emit [simp]: "snd (emit e) = Inr ()"
  by (simp add: emit_def)

lemma thenR_ret [simp]: "thenR (ret ()) b = b"
  by (simp add: thenR_def)

lemma thenR_emit [simp]: "thenR (emit e) b = (e # fst b, snd b)"
  by (simp add: thenR_def emit_def)

lemma bindR_emit [simp]: "bindR (emit e) f = (e # fst (f ()), snd (f ()))"
  by (simp add: emit_def)

lemma bindR_events [simp]: "bindR (es, Inr x) f = (es @ fst (f x), snd (f x))"
  by simp

lemma bindR_assoc: "bindR (bindR a f) g = bindR a (\<lambda>x. bindR (f x) g)"
proof (cases a)
  case (Pair es r)
  show ?thesis
  proof (cases r)
    case (Inl p)
    with Pair show ?thesis by simp
  next
    case (Inr x)
    obtain es' r' where fx: "f x = (es', r')" by (cases "f x")
    show ?thesis using Pair Inr fx by (cases r') simp_all
  qed
qed

lemma thenR_assoc: "thenR (thenR a b) c = thenR a (thenR b c)"
  by (simp add: thenR_def bindR_assoc)

lemma foldR_append: "foldR body (xs @ ys) s = bindR (foldR body xs s) (foldR body ys)"
proof (induction xs arbitrary: s)
  case Nil
  show ?case by simp
next
  case (Cons x xs)
  have "foldR body (xs @ ys) = (\<lambda>t. bindR (foldR body xs t) (foldR body ys))"
    by (rule ext) (rule Cons.IH)
  then show ?case by (simp add: bindR_assoc)
qed

lemma forEach_Nil [simp]: "forEach body [] = ret ()"
  by (simp add: forEach_def)

lemma forEach_Cons [simp]: "forEach body (x # xs) = thenR (body x) (forEach body xs)"
  by (simp add: forEach_def thenR_def)

lemma forEach_append: "forEach body (xs @ ys) = thenR (forEach body xs) (forEach body ys)"
  by (simp add: forEach_def thenR_def foldR_append)

lemma separateModel_filter:
  "foldl separateModel (a, b) names =
     (a @ filter (\<lambda>m. m \<noteq> [] \<and> \<not> hasExtension m) names,
      b @ filter (\<lambda>m. m \<noteq> [] \<and> hasExtension m) names)"
  by (induction names arbitrary: a b) (simp_all add: separateModel_def)

subsection \<open>The gate of displayEntities\<close>

text \<open>
  Claim C1, as the code has it. For a response whose list of model names is not empty
  and whose counts of components, relationships and errors are all zero,
  \<open>displayEmtpyModel\<close> returns false and \<open>displayEntities\<close> returns before
  \<open>displaySummary\<close>: the report is empty. It holds neither the summary line nor any block
  of a model.
\<close>

theorem short_circuit_emits_nothing:
  assumes "ModelName response \<noteq> []"
    and "CompCount (EntityCount response) = 0"
    and "RelCount (EntityCount response) = 0"
    and "TotalErrCount (EntityCount response) = 0"
  shows "displayEntities rt response = ([], Inr ())"
  using assms by (simp add: displayEntities_def displayEmtpyModel_def ret_def)

theorem short_circuit_emits_nothing_witness:
  "ModelName emptyResponse \<noteq> [] \<and> displayEntities exampleRuntime emptyResponse = ([], Inr ())"
  using short_circuit_emits_nothing [of emptyResponse exampleRuntime]
  by (simp add: emptyResponse_def)

theorem short_circuit_summary_counterexample:
  "ModelName emptyResponse \<noteq> []
   \<and> CompCount (EntityCount emptyResponse) = 0
   \<and> RelCount (EntityCount emptyResponse) = 0
   \<and> TotalErrCount (EntityCount emptyResponse) = 0
   \<and> fst (displaySummary emptyResponse) = [Infof ''%s: %s'' [Bold ''SUMMARY'', Str ''done'']]
   \<and> fst (displayEntities exampleRuntime emptyResponse) = []"
  by (simp add: emptyResponse_def displayEntities_def displayEmtpyModel_def displaySummary_def
      ret_def emit_def)

subsection \<open>Empty model names\<close>

text \<open>
  Claim C8. The empty name has no extension, yet the loop that separates the names puts
  it in neither group: the groups of a list are those of the list without its empty
  names, no group holds the empty name, and the report of the models is the one of the
  response without the empty names, so an empty name adds no header and no block.
\<close>

theorem empty_names_dropped:
  "hasExtension [] = False
   \<and> foldl separateModel ([], []) names
       = foldl separateModel ([], []) (filter (\<lambda>m. m \<noteq> []) names)
   \<and> [] \<notin> set (fst (foldl separateModel ([], []) names))
   \<and> [] \<notin> set (snd (foldl separateModel ([], []) names))
   \<and> displayEntitisIfModel rt (response\<lparr>ModelName := names\<rparr>)
       = displayEntitisIfModel rt (response\<lparr>ModelName := filter (\<lambda>m. m \<noteq> []) names\<rparr>)"
proof -
  have noext: "hasExtension [] = False"
    by (simp add: hasExtension_def Ext_def)
  have same: "foldl separateModel ([], []) names
       = foldl separateModel ([], []) (filter (\<lambda>m. m \<noteq> []) names)"
    by (auto simp: separateModel_filter intro!: filter_cong)
  have info: "displayModelInfo rt (response\<lparr>ModelName := ns\<rparr>) = displayModelInfo rt response" for ns
    by (rule ext)+ (simp add: displayModelInfo_def displaySuccessfulComponents_def
        displaySuccessfulRelationships_def displayUnsuccessfulEntities_def)
  have "displayEntitisIfModel rt (response\<lparr>ModelName := names\<rparr>)
       = displayEntitisIfModel rt (response\<lparr>ModelName := filter (\<lambda>m. m \<noteq> []) names\<rparr>)"
    unfolding displayEntitisIfModel_def info using same by simp
  with noext same show ?thesis by (simp add: separateModel_filter)
qed

theorem empty_names_dropped_witness:
  "foldl separateModel ([], []) [''a'', [], ''b.json'', []] = ([''a''], [''b.json''])
   \<and> displayEntitisIfModel exampleRuntime (emptyResponse\<lparr>ModelName := [[], ''a'', []]\<rparr>)
       = displayEntitisIfModel exampleRuntime (emptyResponse\<lparr>ModelName := [''a'']\<rparr>)"
proof -
  have "foldl separateModel ([], []) [''a'', [], ''b.json'', []]
      = foldl separateModel ([], []) (filter (\<lambda>m. m \<noteq> []) [''a'', [], ''b.json'', []])"
    using empty_names_dropped [of "[''a'', [], ''b.json'', []]" exampleRuntime emptyResponse]
    by blast
  moreover have "hasExtension ''a'' = False" "hasExtension ''b.json'' = True"
    by (simp_all add: hasExtension_def Ext_def isPathSeparator_def)
  ultimately have "foldl separateModel ([], []) [''a'', [], ''b.json'', []] = ([''a''], [''b.json''])"
    by (simp add: separateModel_def)
  moreover have "displayEntitisIfModel exampleRuntime (emptyResponse\<lparr>ModelName := [[], ''a'', []]\<rparr>)
       = displayEntitisIfModel exampleRuntime (emptyResponse\<lparr>ModelName := [''a'']\<rparr>)"
    using empty_names_dropped [of "[[], ''a'', []]" exampleRuntime emptyResponse] by simp
  ultimately show ?thesis by simp
qed

subsection \<open>Extensions and the order of the models\<close>

lemma thenR_events [simp]: "thenR (es, Inr u) b = (es @ fst b, snd b)"
  by (simp add: thenR_def)

lemma thenR_panic [simp]: "thenR (es, Inl p) b = (es, Inl p)"
  by (simp add: thenR_def)















subsection \<open>The walk of buildEntityTypeLine\<close>

lemma enumerate_map_JStr:
  "enumerate n (map JStr names) = map (\<lambda>p. (fst p, JStr (snd p))) (enumerate n names)"
  by (induction names arbitrary: n) simp_all

lemma entityType_strings:
  "(if i < length types then assertString (map JStr types ! i) else Inr [])
     = Inr (entityTypeAt types i)"
  by (simp add: entityTypeAt_def)

lemma countEntity_strings:
  "countEntity (map JStr types) d m (i, JStr n) (c, r) =
     ((if counted m types ''Unknown'' (i, n) then [unknownLine d (i, n)] else []),
      Inr (c + (if counted m types ''component'' (i, n) then 1 else 0),
           r + (if counted m types ''relationship'' (i, n) then 1 else 0)))"
  by (simp add: countEntity_def entityType_strings counted_def unknownLine_def ret_def emit_def)

lemma walk_strings:
  "foldR (countEntity (map JStr types) d m) (map (\<lambda>p. (fst p, JStr (snd p))) ps) (c, r) =
     (map (unknownLine d) (filter (counted m types ''Unknown'') ps),
      Inr (c + length (filter (counted m types ''component'') ps),
           r + length (filter (counted m types ''relationship'') ps)))"
proof (induction ps arbitrary: c r)
  case Nil
  show ?case by (simp add: ret_def)
next
  case (Cons p ps)
  obtain i n where p: "p = (i, n)" by (cases p)
  show ?case by (simp add: p countEntity_strings Cons.IH)
qed

lemma entityTypeLine_phrase: "entityTypeLine c r = summaryPhrase c r"
  by (auto simp: entityTypeLine_def summaryPhrase_def entityWord_def Let_def)

lemma buildEntityTypeLine_strings:
  "buildEntityTypeLine (map JStr names) (map JStr types) d m =
     (map (unknownLine d) (filter (counted m types ''Unknown'') (enumerate 0 names)),
      Inr (summaryPhrase
             (length (filter (counted m types ''component'') (enumerate 0 names)))
             (length (filter (counted m types ''relationship'') (enumerate 0 names)))))"
  by (simp add: buildEntityTypeLine_def enumerate_map_JStr walk_strings entityTypeLine_phrase
      ret_def)

lemma showNat_1: "showNat (Suc 0) = ''1''"
  by (subst showNat.simps) simp

lemma JStr_list3: "[JStr a, JStr b, JStr c] = map JStr [a, b, c]"
  by simp

text \<open>
  Claim C5. For the names m1, m1, m1 with the entity types component, relationship and
  Unknown and the current model m1, \<open>buildEntityTypeLine\<close> writes exactly one line, the
  error line of the entry of type Unknown, and returns the phrase
  "1 entity of type component and 1 entity of type relationship"; the combined error line
  that \<open>displayUnsuccessfulEntities\<close> then writes for the record carries that phrase. In
  general, for names and entity types that are strings, the function writes one error
  line for each counted entry of type Unknown and returns the phrase of the numbers of
  counted components and relationships: "entity" for a count of one and "entities"
  above, each part only for a positive count, and "and" only when both are positive.
\<close>

theorem unsuccessful_entity_counting:
  "buildEntityTypeLine [JStr ''m1'', JStr ''m1'', JStr ''m1'']
      [JStr ''component'', JStr ''relationship'', JStr ''Unknown''] d ''m1''
     = ([Infof ''\<newline>%s: Import process for file %s encountered error: \<newline>    %s''
           [Bold ''ERROR'', Str ''m1'', Str d]],
        Inr '' 1 entity of type component and 1 entity of type relationship'')
   \<and> fst (displayUnsuccessfulEntity ''m1''
        (unsuccessfulRecord [''m1'', ''m1'', ''m1''] [''component'', ''relationship'', ''Unknown'']
           [''bad'']))
     = [Infof ''\<newline>%s: Import process for file %s encountered error: \<newline>    %s''
           [Bold ''ERROR'', Str ''m1'', Str ''bad''],
        Println [],
        Infof ''  %s: Import did not occur for%s error: \<newline>  %s''
           [Bold ''ERROR'',
            Str '' 1 entity of type component and 1 entity of type relationship'',
            Str ''bad'']]
   \<and> buildEntityTypeLine (map JStr names) (map JStr types) d m =
     (map (unknownLine d) (filter (counted m types ''Unknown'') (enumerate 0 names)),
      Inr (summaryPhrase
             (length (filter (counted m types ''component'') (enumerate 0 names)))
             (length (filter (counted m types ''relationship'') (enumerate 0 names)))))"
proof -
  have line: "buildEntityTypeLine [JStr ''m1'', JStr ''m1'', JStr ''m1'']
      [JStr ''component'', JStr ''relationship'', JStr ''Unknown''] d ''m1''
     = ([Infof ''\<newline>%s: Import process for file %s encountered error: \<newline>    %s''
           [Bold ''ERROR'', Str ''m1'', Str d]],
        Inr '' 1 entity of type component and 1 entity of type relationship'')" for d
    unfolding JStr_list3 buildEntityTypeLine_strings
    by (simp add: counted_def entityTypeAt_def unknownLine_def summaryPhrase_def entityWord_def
        showNat_1)
  have trim: "TrimSpace ''bad '' = ''bad''"
    by (simp add: TrimSpace_def asciiSpace_def space2_def space3_def)
  have "fst (displayUnsuccessfulEntity ''m1''
        (unsuccessfulRecord [''m1'', ''m1'', ''m1''] [''component'', ''relationship'', ''Unknown'']
           [''bad'']))
     = [Infof ''\<newline>%s: Import process for file %s encountered error: \<newline>    %s''
           [Bold ''ERROR'', Str ''m1'', Str ''bad''],
        Println [],
        Infof ''  %s: Import did not occur for%s error: \<newline>  %s''
           [Bold ''ERROR'',
            Str '' 1 entity of type component and 1 entity of type relationship'',
            Str ''bad'']]"
    by (simp add: displayUnsuccessfulEntity_def unsuccessfulRecord_def mapIndex_def
        buildLongDescription_def addDescriptionItem_def trim line)
  with line buildEntityTypeLine_strings show ?thesis by simp
qed

lemma showNat_digit: "n < 10 \<Longrightarrow> showNat n = [''0123456789'' ! n]"
  by (subst showNat.simps) simp

theorem unsuccessful_entity_counting_witness:
  "buildEntityTypeLine [JStr ''m1'', JStr ''m1'', JStr ''x''] [JStr ''component'', JStr ''component'']
      ''bad'' ''m1''
     = ([], Inr '' 2 entities of type component'')"
proof -
  have "buildEntityTypeLine (map JStr [''m1'', ''m1'', ''x'']) (map JStr [''component'', ''component''])
      ''bad'' ''m1''
     = ([], Inr '' 2 entities of type component'')"
    using unsuccessful_entity_counting [of "''bad''" "[''m1'', ''m1'', ''x'']"
        "[''component'', ''component'']" "''m1''"]
    by (simp add: counted_def entityTypeAt_def summaryPhrase_def entityWord_def showNat_digit)
  then show ?thesis by simp
qed

lemma countEntity_past_types:
  assumes "length entityTypes \<le> i"
  shows "countEntity entityTypes d m (i, JStr n) counts = ret counts"
  using assms by (cases counts) (simp add: countEntity_def)

lemma countEntity_padded:
  "countEntity (entityTypes @ replicate k (JStr [])) d m indexed counts
     = countEntity entityTypes d m indexed counts"
proof -
  obtain i name where indexed: "indexed = (i, name)" by (cases indexed)
  have "(if i < length (entityTypes @ replicate k (JStr []))
         then assertString ((entityTypes @ replicate k (JStr [])) ! i) else Inr [])
      = (if i < length entityTypes then assertString (entityTypes ! i) else Inr [])"
    by (simp add: nth_append)
  then show ?thesis by (simp add: countEntity_def indexed)
qed

lemma walk_past_types:
  assumes "length entityTypes \<le> i"
  shows "foldR (countEntity entityTypes d m) (enumerate i (map JStr names)) counts = ret counts"
  using assms
proof (induction names arbitrary: i)
  case Nil
  show ?case by simp
next
  case (Cons n names)
  then show ?case by (simp add: countEntity_past_types)
qed

text \<open>
  Claim C9. At an index at or past the length of \<open>entityTypes\<close>, and for a name that is
  a string, the body of the walk reads no entity type, writes no line, does not panic and
  returns the two counts as they were; so does the rest of the walk from such an index
  on. Names past the end are treated as if the list of entity types went on with empty
  strings.
\<close>

theorem names_past_entity_types:
  assumes "length entityTypes \<le> i"
  shows "countEntity entityTypes d m (i, JStr n) counts = ret counts
    \<and> foldR (countEntity entityTypes d m) (enumerate i (map JStr names)) counts = ret counts
    \<and> countEntity (entityTypes @ replicate k (JStr [])) d m indexed counts
        = countEntity entityTypes d m indexed counts"
  using assms by (simp add: countEntity_past_types walk_past_types countEntity_padded)

theorem names_past_entity_types_witness:
  "countEntity [JStr ''Unknown''] ''bad'' ''m1'' (1, JStr ''m1'') (2, 3) = ([], Inr (2, 3))
   \<and> buildEntityTypeLine [JStr ''m1'', JStr ''m1''] [] ''bad'' ''m1'' = ([], Inr [])"
proof -
  have "length [JStr ''Unknown''] \<le> 1" by simp
  from names_past_entity_types [OF this, of "''bad''" "''m1''" "''m1''" "(2, 3)"]
  have one: "countEntity [JStr ''Unknown''] ''bad'' ''m1'' (1, JStr ''m1'') (2, 3) = ([], Inr (2, 3))"
    by (simp add: ret_def)
  have "length ([] :: json list) \<le> 0" by simp
  from names_past_entity_types [OF this, of "''bad''" "''m1''" _ "(0, 0)" "[''m1'', ''m1'']"]
  have "foldR (countEntity [] ''bad'' ''m1'') (enumerate 0 (map JStr [''m1'', ''m1''])) (0, 0)
      = ret (0, 0)"
    by blast
  then have "buildEntityTypeLine [JStr ''m1'', JStr ''m1''] [] ''bad'' ''m1'' = ([], Inr [])"
    by (simp add: buildEntityTypeLine_def entityTypeLine_def ret_def)
  with one show ?thesis by simp
qed

subsection \<open>What the command submits\<close>

text \<open>
  Claim C7. For a path that is not a directory and can be read, the body that is
  submitted holds the bytes of the file as \<^verbatim>\<open>os.ReadFile\<close> returned them and the base name of
  the path, and the archiver plays no part in the result. For a directory that can be
  archived the file name is the base name of the directory followed by \<^verbatim>\<open>.tar.gz\<close>.
  Whenever a body is submitted, its file name and payload are of one of these two forms.
\<close>

theorem payload_and_file_name:
  assumes "importModelCmd_Args location args = None"
    and "path = (if location \<noteq> [] then location else args ! 0)"
  shows "(Stat fs path = Some False \<and> ReadFile fs path = Some fileData \<longrightarrow>
            importModelCmd_RunE fs location args
              = Inr \<lparr>ModelFile = fileData, URL = [], FileName = Base path, UploadType = ''file''\<rparr>)
    \<and> (Stat fs path = Some False \<longrightarrow>
            importModelCmd_RunE (fs\<lparr>compressDirectory := archiver\<rparr>) location args
              = importModelCmd_RunE fs location args)
    \<and> (Stat fs path = Some True \<and> compressDirectory fs path = Some tarData \<longrightarrow>
            importModelCmd_RunE fs location args
              = Inr \<lparr>ModelFile = tarData, URL = [], FileName = Base path @ ''.tar.gz'',
                     UploadType = ''file''\<rparr>)
    \<and> (importModelCmd_RunE fs location args = Inr body \<longrightarrow>
           (\<exists>isDir. Stat fs path = Some isDir
              \<and> FileName body = (if isDir then Base path @ ''.tar.gz'' else Base path)
              \<and> (\<not> isDir \<longrightarrow> ReadFile fs path = Some (ModelFile body))))"
proof -
  have run: "importModelCmd_RunE f location args =
      (case Stat f path of
         None \<Rightarrow> Inl ErrAccessPath
       | Some isDir \<Rightarrow>
           if isDir
           then (case compressDirectory f path of
                   None \<Rightarrow> Inl ErrCompressDirectory
                 | Some tarData \<Rightarrow>
                     Inr (registerModel_body tarData (Base path @ ''.tar.gz'') ''file''))
           else (case ReadFile f path of
                   None \<Rightarrow> Inl ErrReadFile
                 | Some fileData \<Rightarrow> Inr (registerModel_body fileData (Base path) ''file'')))"
    for f
    unfolding importModelCmd_RunE_def assms(1) assms(2) by (simp add: Let_def)
  have regular: "Stat fs path = Some False \<and> ReadFile fs path = Some fileData \<longrightarrow>
            importModelCmd_RunE fs location args
              = Inr \<lparr>ModelFile = fileData, URL = [], FileName = Base path, UploadType = ''file''\<rparr>"
    by (simp add: run registerModel_body_def)
  have frame: "Stat fs path = Some False \<longrightarrow>
            importModelCmd_RunE (fs\<lparr>compressDirectory := archiver\<rparr>) location args
              = importModelCmd_RunE fs location args"
    by (simp add: run)
  have dir: "Stat fs path = Some True \<and> compressDirectory fs path = Some tarData \<longrightarrow>
            importModelCmd_RunE fs location args
              = Inr \<lparr>ModelFile = tarData, URL = [], FileName = Base path @ ''.tar.gz'',
                     UploadType = ''file''\<rparr>"
    by (simp add: run registerModel_body_def)
  have submitted: "importModelCmd_RunE fs location args = Inr body \<longrightarrow>
           (\<exists>isDir. Stat fs path = Some isDir
              \<and> FileName body = (if isDir then Base path @ ''.tar.gz'' else Base path)
              \<and> (\<not> isDir \<longrightarrow> ReadFile fs path = Some (ModelFile body)))"
  proof
    assume sub: "importModelCmd_RunE fs location args = Inr body"
    show "\<exists>isDir. Stat fs path = Some isDir
              \<and> FileName body = (if isDir then Base path @ ''.tar.gz'' else Base path)
              \<and> (\<not> isDir \<longrightarrow> ReadFile fs path = Some (ModelFile body))"
    proof (cases "Stat fs path")
      case None
      with sub show ?thesis by (simp add: run)
    next
      case (Some isDir)
      show ?thesis
      proof (cases isDir)
        case True
        show ?thesis
        proof (cases "compressDirectory fs path")
          case None
          with sub Some True show ?thesis by (simp add: run)
        next
          case (Some tarData)
          with sub \<open>Stat fs path = Some isDir\<close> True
          have "body = registerModel_body tarData (Base path @ ''.tar.gz'') ''file''"
            by (simp add: run)
          then have "FileName body = Base path @ ''.tar.gz''"
            by (simp add: registerModel_body_def)
          with \<open>Stat fs path = Some isDir\<close> True show ?thesis by (intro exI [of _ True]) simp
        qed
      next
        case False
        show ?thesis
        proof (cases "ReadFile fs path")
          case None
          with sub Some False show ?thesis by (simp add: run)
        next
          case (Some fileData)
          with sub \<open>Stat fs path = Some isDir\<close> False
          have "body = registerModel_body fileData (Base path) ''file''"
            by (simp add: run)
          then have "FileName body = Base path" "ModelFile body = fileData"
            by (simp_all add: registerModel_body_def)
          with \<open>Stat fs path = Some isDir\<close> False Some show ?thesis
            by (intro exI [of _ False]) simp
        qed
      qed
    qed
  qed
  show ?thesis by (intro conjI regular frame dir submitted)
qed

theorem payload_and_file_name_witness:
  "importModelCmd_RunE exampleFiles ''/models/a.json'' []
     = Inr \<lparr>ModelFile = [0x7B, 0x7D], URL = [], FileName = ''a.json'', UploadType = ''file''\<rparr>
   \<and> importModelCmd_RunE exampleFiles [] [''/models/dir/'']
     = Inr \<lparr>ModelFile = [0x1F, 0x8B], URL = [], FileName = ''dir.tar.gz'', UploadType = ''file''\<rparr>"
proof -
  have base: "Base ''/models/a.json'' = ''a.json''" "Base ''/models/dir/'' = ''dir''"
    by (simp_all add: Base_def isPathSeparator_def)
  have "importModelCmd_RunE exampleFiles ''/models/a.json'' []
     = Inr \<lparr>ModelFile = [0x7B, 0x7D], URL = [], FileName = ''a.json'', UploadType = ''file''\<rparr>"
    using payload_and_file_name [of "''/models/a.json''" "[]" "''/models/a.json''" exampleFiles
        "[0x7B, 0x7D]"]
    by (simp add: importModelCmd_Args_def exampleFiles_def base)
  moreover have "importModelCmd_RunE exampleFiles [] [''/models/dir/'']
     = Inr \<lparr>ModelFile = [0x1F, 0x8B], URL = [], FileName = ''dir.tar.gz'', UploadType = ''file''\<rparr>"
    using payload_and_file_name [of "[]" "[''/models/dir/'']" "''/models/dir/''" exampleFiles
        _ _ "[0x1F, 0x8B]"]
    by (simp add: importModelCmd_Args_def exampleFiles_def base)
  ultimately show ?thesis by simp
qed

subsection \<open>Malformed records of components and relationships\<close>

lemma bindR_ret_right [simp]: "bindR a ret = a"
proof (cases a)
  case (Pair es r)
  then show ?thesis by (cases r) (simp_all add: ret_def)
qed

lemma thenR_ret_right [simp]: "thenR a (ret ()) = a"
proof (cases a)
  case (Pair es r)
  then show ?thesis by (cases r) simp_all
qed

lemma displayEntities_single_model:
  assumes "ModelName response = [model]" and "model \<noteq> []" and "\<not> hasExtension model"
    and "displayEmtpyModel response"
  shows "displayEntities rt response =
     thenR (displaySummary response)
       (thenR (emit (Infof ''\<newline>%s: %s'' [Bold ''MODEL'', Str model]))
          (thenR (displaySuccessfulComponents response model)
             (thenR (displaySuccessfulRelationships rt response model)
                (displayUnsuccessfulEntities response model))))"
proof -
  have "foldl separateModel ([], []) (ModelName response) = ([model], [])"
    using assms by (simp add: separateModel_def)
  then have "displayEntitisIfModel rt response = displayModelInfo rt response model False"
    by (simp add: displayEntitisIfModel_def thenR_def)
  with assms(4) show ?thesis
    by (simp add: displayEntities_def displayModelInfo_def)
qed

lemma hasExtension_m: "\<not> hasExtension ''m''"
  by (simp add: hasExtension_def Ext_def isPathSeparator_def)

lemma responseWith_simps [simp]:
  "ModelName (responseWith names entities) = names"
  "EntityTypeSummary (responseWith names entities) = entities"
  "ErrMsg (responseWith names entities) = ''done''"
  "displayEmtpyModel (responseWith names entities)"
  by (simp_all add: responseWith_def displayEmtpyModel_def)

lemma noEntities_simps [simp]:
  "SuccessfulComponents noEntities = []"
  "SuccessfulRelationships noEntities = []"
  "UnsuccessfulEntityNameWithError noEntities = []"
  by (simp_all add: noEntities_def)

lemma nothing_to_display [simp]:
  "SuccessfulComponents (EntityTypeSummary response) = []
     \<Longrightarrow> displaySuccessfulComponents response model = ret ()"
  "SuccessfulRelationships (EntityTypeSummary response) = []
     \<Longrightarrow> displaySuccessfulRelationships rt response model = ret ()"
  "UnsuccessfulEntityNameWithError (EntityTypeSummary response) = []
     \<Longrightarrow> displayUnsuccessfulEntities response model = ret ()"
  by (simp_all add: displaySuccessfulComponents_def displaySuccessfulRelationships_def
      displayUnsuccessfulEntities_def)

text \<open>
  Claim C3, at inputs where the code does not do what the claim says. A component record
  without \<^verbatim>\<open>Model\<close> ends the report with a panic after the summary and the header of the
  model: the well-formed record after it, which on its own gives a table, is never
  rendered, and no diagnostic is logged. A relationship record without \<^verbatim>\<open>Selectors\<close>
  does the same.
\<close>

theorem malformed_record_panics:
  "displayEntities rt
      (responseWith [''m'']
         (noEntities\<lparr>SuccessfulComponents :=
            [componentWithoutModel, componentRecord ''c2'' ''m'' ''cat'' ''v1'']\<rparr>))
     = ([Infof ''%s: %s'' [Bold ''SUMMARY'', Str ''done''],
         Infof ''\<newline>%s: %s'' [Bold ''MODEL'', Str ''m'']],
        Inl TypeAssertionFailed)
   \<and> displayEntities rt
      (responseWith [''m'']
         (noEntities\<lparr>SuccessfulComponents := [componentRecord ''c2'' ''m'' ''cat'' ''v1'']\<rparr>))
     = ([Infof ''%s: %s'' [Bold ''SUMMARY'', Str ''done''],
         Infof ''\<newline>%s: %s'' [Bold ''MODEL'', Str ''m''],
         Println [],
         PrintToTable [''Component'', ''Category'', ''Version''] [[''c2'', ''cat'', ''v1'']]],
        Inr ())
   \<and> displayEntities rt
      (responseWith [''m'']
         (noEntities\<lparr>SuccessfulRelationships :=
            [relationshipWithoutSelectors, relationshipRecord ''edge'' ''binding'' ''m'' ''a'' ''b'']\<rparr>))
     = ([Infof ''%s: %s'' [Bold ''SUMMARY'', Str ''done''],
         Infof ''\<newline>%s: %s'' [Bold ''MODEL'', Str ''m'']],
        Inl TypeAssertionFailed)"
proof -
  have bad: "addComponent ''m'' componentWithoutModel rows = Inl TypeAssertionFailed" for rows
    by (simp add: addComponent_def componentWithoutModel_def mapIndex_def)
  have good: "addComponent ''m'' (componentRecord ''c2'' ''m'' ''cat'' ''v1'') rows
      = Inr (rows @ [[''c2'', ''cat'', ''v1'']])" for rows
    by (simp add: addComponent_def componentRecord_def mapIndex_def)
  have rel: "addRelationship rt ''m'' relationshipWithoutSelectors acc = Inl TypeAssertionFailed"
    for acc
    by (simp add: addRelationship_def relationshipWithoutSelectors_def mapIndex_def)
  have first: "displaySuccessfulComponents
      (responseWith [''m''] (noEntities\<lparr>SuccessfulComponents :=
            [componentWithoutModel, componentRecord ''c2'' ''m'' ''cat'' ''v1'']\<rparr>)) ''m''
      = ([], Inl TypeAssertionFailed)"
    by (simp add: displaySuccessfulComponents_def bad)
  have second: "displaySuccessfulComponents
      (responseWith [''m''] (noEntities\<lparr>SuccessfulComponents :=
            [componentRecord ''c2'' ''m'' ''cat'' ''v1'']\<rparr>)) ''m''
      = ([Println [], PrintToTable [''Component'', ''Category'', ''Version''] [[''c2'', ''cat'', ''v1'']]],
         Inr ())"
    by (simp add: displaySuccessfulComponents_def good)
  have third: "displaySuccessfulRelationships rt
      (responseWith [''m''] (noEntities\<lparr>SuccessfulRelationships :=
            [relationshipWithoutSelectors, relationshipRecord ''edge'' ''binding'' ''m'' ''a'' ''b'']\<rparr>))
      ''m'' = ([], Inl TypeAssertionFailed)"
    by (simp add: displaySuccessfulRelationships_def rel)
  show ?thesis
    by (simp add: displayEntities_single_model [where model = "''m''"] hasExtension_m
        displaySummary_def first second third)
qed

subsection \<open>Records of unsuccessful entities\<close>














subsection \<open>The key of the seen set\<close>

lemma addSelector_record:
  "addSelector rt kind subtype
      (JObj [(''allow'', JObj [(''from'', JArr [JObj [(''kind'', JStr from)]]),
                               (''to'', JArr [JObj [(''kind'', JStr to)]])])]) acc
     = (if seen acc ((kind @ ''-'' @ subtype) @ from @ to) then Inr acc
        else Inr \<lparr>seen = (seen acc)((kind @ ''-'' @ subtype) @ from @ to := True),
                  relationshipMap = appendRow (kind @ ''-'' @ subtype) [from, to] (relationshipMap acc)\<rparr>)"
  by (simp add: addSelector_def mapIndex_def sliceIndex_def Sprintf_s_def Let_def)

lemma addRelationship_record:
  "addRelationship rt model (relationshipRecord kind subtype model from to) acc
     = (if seen acc ((kind @ ''-'' @ subtype) @ from @ to) then Inr acc
        else Inr \<lparr>seen = (seen acc)((kind @ ''-'' @ subtype) @ from @ to := True),
                  relationshipMap = appendRow (kind @ ''-'' @ subtype) [from, to] (relationshipMap acc)\<rparr>)"
  by (simp add: addRelationship_def relationshipRecord_def mapIndex_def addSelector_record)

lemma displayRelationshipGroup_edge_binding:
  "displayRelationshipGroup (''edge-binding'', [row])
     = ([Println [],
         Infof ''  %s Kind of %s and sub type %s''
           [Bold ''RELATIONSHIP:'', Str ''edge'', Str ''binding''],
         PrintToTable [''From'', ''To''] [row]], Inr ())"
  by (simp add: displayRelationshipGroup_def sliceIndex_def emit_def)

text \<open>
  Claim C10. The key of \<^verbatim>\<open>seen\<close> is the concatenation of kind, a dash, subtype, from and
  to. Whatever order \<^verbatim>\<open>range\<close> takes, there are two relationship records of one model with
  different tuples and the same key, and the report of the two holds one table with the
  row of the first record only.
\<close>

theorem concatenated_key_collision:
  assumes "\<forall>m. mset (rangeOrder rt m) = mset m"
  shows "\<exists>kind subtype from1 to1 from2 to2.
      (kind, subtype, from1, to1) \<noteq> (kind, subtype, from2, to2)
    \<and> (kind @ ''-'' @ subtype) @ from1 @ to1 = (kind @ ''-'' @ subtype) @ from2 @ to2
    \<and> displaySuccessfulRelationships rt
         (responseWith [model] (noEntities\<lparr>SuccessfulRelationships :=
            [relationshipRecord kind subtype model from1 to1,
             relationshipRecord kind subtype model from2 to2]\<rparr>)) model
       = ([Println [],
           Infof ''  %s Kind of %s and sub type %s'' [Bold ''RELATIONSHIP:'', Str kind, Str subtype],
           PrintToTable [''From'', ''To''] [[from1, to1]]], Inr ())"
proof -
  let ?rels = "[relationshipRecord ''edge'' ''binding'' model ''ab'' ''c'',
                relationshipRecord ''edge'' ''binding'' model ''a'' ''bc'']"
  have "mset (rangeOrder rt [(''edge-binding'', [[''ab'', ''c'']])])
      = mset [(''edge-binding'', [[''ab'', ''c'']])]"
    using assms by blast
  then have order: "rangeOrder rt [(''edge-binding'', [[''ab'', ''c'']])]
      = [(''edge-binding'', [[''ab'', ''c'']])]"
    by simp
  have "displaySuccessfulRelationships rt
         (responseWith [model] (noEntities\<lparr>SuccessfulRelationships := ?rels\<rparr>)) model
       = ([Println [],
           Infof ''  %s Kind of %s and sub type %s''
             [Bold ''RELATIONSHIP:'', Str ''edge'', Str ''binding''],
           PrintToTable [''From'', ''To''] [[''ab'', ''c'']]], Inr ())"
    by (simp add: displaySuccessfulRelationships_def addRelationship_record order
        displayRelationshipGroup_edge_binding)
  moreover have "(''edge'', ''binding'', ''ab'', ''c'') \<noteq> (''edge'', ''binding'', ''a'', ''bc'')"
    by simp
  moreover have "(''edge'' @ ''-'' @ ''binding'') @ ''ab'' @ ''c''
      = (''edge'' @ ''-'' @ ''binding'') @ ''a'' @ ''bc''"
    by simp
  ultimately show ?thesis by blast
qed

theorem concatenated_key_collision_witness:
  "\<exists>kind subtype from1 to1 from2 to2.
      (kind, subtype, from1, to1) \<noteq> (kind, subtype, from2, to2)
    \<and> (kind @ ''-'' @ subtype) @ from1 @ to1 = (kind @ ''-'' @ subtype) @ from2 @ to2
    \<and> displaySuccessfulRelationships exampleRuntime
         (responseWith [''m''] (noEntities\<lparr>SuccessfulRelationships :=
            [relationshipRecord kind subtype ''m'' from1 to1,
             relationshipRecord kind subtype ''m'' from2 to2]\<rparr>)) ''m''
       = ([Println [],
           Infof ''  %s Kind of %s and sub type %s'' [Bold ''RELATIONSHIP:'', Str kind, Str subtype],
           PrintToTable [''From'', ''To''] [[from1, to1]]], Inr ())"
proof -
  have "\<forall>m. mset (rangeOrder exampleRuntime m) = mset m"
    by (simp add: exampleRuntime_def)
  from concatenated_key_collision [OF this, of "''m''"] show ?thesis .
qed

text \<open>
  Claim C4, at an input where the code does not do what the claim says. Of three records
  with kind edge and subtype binding, the second and third agree on from a and to bc; the
  first, from ab to c, has the same concatenated key. The table holds the row of the
  first only: there is no row at all for the tuple the two later records share.
\<close>

theorem duplicate_lost_after_collision:
  "displaySuccessfulRelationships exampleRuntime
      (responseWith [''m''] (noEntities\<lparr>SuccessfulRelationships := collidingRelationships\<rparr>)) ''m''
     = ([Println [],
         Infof ''  %s Kind of %s and sub type %s''
           [Bold ''RELATIONSHIP:'', Str ''edge'', Str ''binding''],
         PrintToTable [''From'', ''To''] [[''ab'', ''c'']]], Inr ())"
proof -
  have extra: "addRelationship rt ''m''
        ((''Version'', JStr ''v2'') # relationshipRecord ''edge'' ''binding'' ''m'' ''a'' ''bc'') acc
      = addRelationship rt ''m'' (relationshipRecord ''edge'' ''binding'' ''m'' ''a'' ''bc'') acc"
    for rt acc
    by (simp add: addRelationship_def relationshipRecord_def mapIndex_def)
  have order: "rangeOrder exampleRuntime m = m" for m
    by (simp add: exampleRuntime_def)
  show ?thesis
    by (simp add: displaySuccessfulRelationships_def collidingRelationships_def extra
        addRelationship_record order displayRelationshipGroup_edge_binding)
qed

subsection \<open>The rows of the relationship tables\<close>

lemma bindP_assoc: "bindP (bindP a f) g = bindP a (\<lambda>x. bindP (f x) g)"
  by (cases a) simp_all

lemma bindP_Inr_right [simp]: "bindP a Inr = a"
  by (cases a) simp_all

lemma Inr_if: "(if c then Inr a else Inr b) = Inr (if c then a else b)"
  by simp

lemma addSelector_entry:
  "addSelector rt kind subtype selector acc
     = bindP (selectorEntry rt kind subtype selector) (\<lambda>e. Inr (addEntry acc e))"
  by (simp add: addSelector_def selectorEntry_def addEntry_def bindP_assoc Let_def Inr_if)

lemma foldP_addSelector:
  "foldP (addSelector rt kind subtype) selectors acc
     = bindP (mapP (selectorEntry rt kind subtype) selectors) (\<lambda>es. Inr (foldl addEntry acc es))"
proof (induction selectors arbitrary: acc)
  case Nil
  show ?case by simp
next
  case (Cons selector selectors)
  show ?case
  proof (cases "selectorEntry rt kind subtype selector")
    case (Inl p)
    then have "addSelector rt kind subtype selector acc = Inl p"
      by (simp add: addSelector_entry)
    with Inl show ?thesis by simp
  next
    case (Inr e)
    then have "addSelector rt kind subtype selector acc = Inr (addEntry acc e)"
      by (simp add: addSelector_entry)
    then have "foldP (addSelector rt kind subtype) (selector # selectors) acc
        = foldP (addSelector rt kind subtype) selectors (addEntry acc e)"
      by simp
    also have "\<dots> = bindP (mapP (selectorEntry rt kind subtype) selectors)
                      (\<lambda>es. Inr (foldl addEntry (addEntry acc e) es))"
      by (rule Cons.IH)
    finally show ?thesis using Inr
      by (cases "mapP (selectorEntry rt kind subtype) selectors") simp_all
  qed
qed

lemma addRelationship_entries:
  "addRelationship rt model rel acc
     = bindP (relationshipEntries rt model rel) (\<lambda>es. Inr (foldl addEntry acc es))"
  by (simp add: addRelationship_def relationshipEntries_def bindP_assoc foldP_addSelector
      if_distrib [of "\<lambda>x. bindP x f" for f] cong: if_cong)

lemma foldP_addRelationship:
  "foldP (addRelationship rt model) rels acc
     = bindP (responseEntries rt model rels) (\<lambda>es. Inr (foldl addEntry acc es))"
proof (induction rels arbitrary: acc)
  case Nil
  show ?case by (simp add: responseEntries_def)
next
  case (Cons rel rels)
  show ?case
  proof (cases "relationshipEntries rt model rel")
    case (Inl p)
    then have "addRelationship rt model rel acc = Inl p"
      by (simp add: addRelationship_entries)
    with Inl show ?thesis by (simp add: responseEntries_def)
  next
    case (Inr es)
    then have "addRelationship rt model rel acc = Inr (foldl addEntry acc es)"
      by (simp add: addRelationship_entries)
    then have "foldP (addRelationship rt model) (rel # rels) acc
        = foldP (addRelationship rt model) rels (foldl addEntry acc es)"
      by simp
    also have "\<dots> = bindP (responseEntries rt model rels)
                      (\<lambda>es'. Inr (foldl addEntry (foldl addEntry acc es) es'))"
      by (rule Cons.IH)
    finally show ?thesis using Inr
      by (cases "mapP (relationshipEntries rt model) rels") (simp_all add: responseEntries_def)
  qed
qed

lemma map_of_appendRow:
  "map_of (appendRow key row m)
     = (map_of m)(key \<mapsto> (case map_of m key of None \<Rightarrow> [] | Some rows \<Rightarrow> rows) @ [row])"
  by (induction m) (auto simp: fun_upd_twist)

lemma keys_appendRow: "set (map fst (appendRow key row m)) = insert key (set (map fst m))"
proof (induction m)
  case Nil
  show ?case by simp
next
  case (Cons entry m)
  obtain k rows where entry: "entry = (k, rows)" by (cases entry)
  show ?case
  proof (cases "k = key")
    case True
    then show ?thesis by (simp add: entry)
  next
    case False
    with Cons.IH show ?thesis by (simp add: entry insert_commute)
  qed
qed

lemma distinct_appendRow:
  "distinct (map fst m) \<Longrightarrow> distinct (map fst (appendRow key row m))"
proof (induction m)
  case Nil
  show ?case by simp
next
  case (Cons entry m)
  obtain k rows where entry: "entry = (k, rows)" by (cases entry)
  show ?case
  proof (cases "k = key")
    case True
    with Cons.prems entry show ?thesis by simp
  next
    case False
    have "k \<notin> set (map fst (appendRow key row m))"
      using Cons.prems entry False unfolding keys_appendRow by simp
    with Cons entry False show ?thesis by simp
  qed
qed

lemma rowsOf_addEntry_seen:
  "seen acc (key @ f @ t) \<Longrightarrow> addEntry acc (key, f, t) = acc"
  by (simp add: addEntry_def)

lemma addEntry_new:
  "\<not> seen acc (key @ f @ t) \<Longrightarrow>
     seen (addEntry acc (key, f, t)) = (seen acc)(key @ f @ t := True)
     \<and> relationshipMap (addEntry acc (key, f, t)) = appendRow key [f, t] (relationshipMap acc)"
  by (simp add: addEntry_def)

lemma foldl_addEntry_invariant:
  fixes es :: "entry list"
  defines "acc \<equiv> foldl addEntry noRelationships es"
  shows "(\<forall>k. seen acc k = (k \<in> seenKey ` set es))
    \<and> distinct (map fst (relationshipMap acc))
    \<and> (\<forall>key rows. map_of (relationshipMap acc) key = Some rows \<longrightarrow>
          rows \<noteq> [] \<and> distinct rows
          \<and> (\<forall>row \<in> set rows. \<exists>f t. row = [f, t] \<and> (key, f, t) \<in> set es))"
  unfolding acc_def
proof (induction es rule: rev_induct)
  case Nil
  show ?case by (simp add: noRelationships_def)
next
  case (snoc e es)
  define acc where "acc = foldl addEntry noRelationships es"
  obtain key f t where e: "e = (key, f, t)" by (cases e)
  from snoc have seen_iff: "\<And>k. seen acc k = (k \<in> seenKey ` set es)"
    and keys: "distinct (map fst (relationshipMap acc))"
    and groups: "\<And>key rows. map_of (relationshipMap acc) key = Some rows \<Longrightarrow>
          rows \<noteq> [] \<and> distinct rows
          \<and> (\<forall>row \<in> set rows. \<exists>f t. row = [f, t] \<and> (key, f, t) \<in> set es)"
    unfolding acc_def by blast+
  have step: "foldl addEntry noRelationships (es @ [e]) = addEntry acc (key, f, t)"
    by (simp add: acc_def e)
  show ?case
  proof (cases "seen acc (key @ f @ t)")
    case True
    then have same: "addEntry acc (key, f, t) = acc" by (rule rowsOf_addEntry_seen)
    from True have "seenKey e \<in> seenKey ` set es"
      using seen_iff by (simp add: seenKey_def e)
    then have "\<And>k. (k \<in> seenKey ` set (es @ [e])) = (k \<in> seenKey ` set es)" by auto
    with seen_iff keys groups show ?thesis
      unfolding step same by (simp) blast
  next
    case False
    let ?acc' = "addEntry acc (key, f, t)"
    from False have seen': "seen ?acc' = (seen acc)(key @ f @ t := True)"
      and map': "relationshipMap ?acc' = appendRow key [f, t] (relationshipMap acc)"
      using addEntry_new by blast+
    have one: "\<forall>k. seen ?acc' k = (k \<in> seenKey ` set (es @ [e]))"
      using seen_iff by (auto simp: seen' seenKey_def e)
    have two: "distinct (map fst (relationshipMap ?acc'))"
      using keys by (simp add: map' distinct_appendRow)
    have three: "rows \<noteq> [] \<and> distinct rows
          \<and> (\<forall>row \<in> set rows. \<exists>f' t'. row = [f', t'] \<and> (key', f', t') \<in> set (es @ [e]))"
      if look: "map_of (relationshipMap ?acc') key' = Some rows" for key' rows
    proof (cases "key' = key")
      case other: False
      with look have "map_of (relationshipMap acc) key' = Some rows"
        by (simp add: map' map_of_appendRow)
      from groups [OF this] show ?thesis by auto
    next
      case True
      define old where "old = (case map_of (relationshipMap acc) key of None \<Rightarrow> [] | Some rows \<Rightarrow> rows)"
      from look True have rows: "rows = old @ [[f, t]]"
        by (simp add: map' map_of_appendRow old_def)
      have old: "distinct old \<and> (\<forall>row \<in> set old. \<exists>f' t'. row = [f', t'] \<and> (key, f', t') \<in> set es)"
      proof (cases "map_of (relationshipMap acc) key")
        case None
        then show ?thesis by (simp add: old_def)
      next
        case (Some rows0)
        with groups [OF Some] show ?thesis by (simp add: old_def)
      qed
      have "[f, t] \<notin> set old"
      proof
        assume "[f, t] \<in> set old"
        with old have "(key, f, t) \<in> set es" by auto
        then have "key @ f @ t \<in> seenKey ` set es"
          by (force simp: seenKey_def)
        with seen_iff False show False by simp
      qed
      with old rows True show ?thesis by (auto simp: e)
    qed
    from one two three show ?thesis unfolding step by blast
  qed
qed

lemma foldl_addEntry_present:
  fixes es :: "entry list"
  assumes "\<forall>x \<in> set es. \<forall>y \<in> set es. seenKey x = seenKey y \<longrightarrow> x = y"
  shows "\<forall>key f t. (key, f, t) \<in> set es \<longrightarrow>
           [f, t] \<in> set (rowsOf (foldl addEntry noRelationships es) key)"
  using assms
proof (induction es rule: rev_induct)
  case Nil
  show ?case by simp
next
  case (snoc e es)
  define acc where "acc = foldl addEntry noRelationships es"
  obtain key f t where e: "e = (key, f, t)" by (cases e)
  have seen_iff: "\<And>k. seen acc k = (k \<in> seenKey ` set es)"
    using foldl_addEntry_invariant [of es] unfolding acc_def by blast
  from snoc.prems have inj: "\<forall>x \<in> set es. \<forall>y \<in> set es. seenKey x = seenKey y \<longrightarrow> x = y"
    by simp
  from snoc.IH [OF inj] have before: "\<And>key f t. (key, f, t) \<in> set es \<Longrightarrow> [f, t] \<in> set (rowsOf acc key)"
    unfolding acc_def by blast
  have step: "foldl addEntry noRelationships (es @ [e]) = addEntry acc (key, f, t)"
    by (simp add: acc_def e)
  show ?case
  proof (cases "seen acc (key @ f @ t)")
    case True
    then have same: "addEntry acc (key, f, t) = acc" by (rule rowsOf_addEntry_seen)
    from True obtain y where y: "y \<in> set es" "seenKey y = seenKey e"
      using seen_iff by (auto simp: seenKey_def e)
    with snoc.prems have "y = e" by simp
    with y have "e \<in> set es" by simp
    with before show ?thesis unfolding step same by (auto simp: e)
  next
    case False
    then have map': "relationshipMap (addEntry acc (key, f, t))
        = appendRow key [f, t] (relationshipMap acc)"
      using addEntry_new by blast
    have grown: "set (rowsOf acc key') \<subseteq> set (rowsOf (addEntry acc (key, f, t)) key')" for key'
      by (auto simp: rowsOf_def map' map_of_appendRow split: option.splits)
    have new: "[f, t] \<in> set (rowsOf (addEntry acc (key, f, t)) key)"
      by (simp add: rowsOf_def map' map_of_appendRow)
    show ?thesis
      unfolding step
    proof (intro allI impI)
      fix key' f' t'
      assume "(key', f', t') \<in> set (es @ [e])"
      then consider "(key', f', t') \<in> set es" | "(key', f', t') = (key, f, t)"
        by (auto simp: e)
      then show "[f', t'] \<in> set (rowsOf (addEntry acc (key, f, t)) key')"
      proof cases
        case 1
        then have "[f', t'] \<in> set (rowsOf acc key')" by (rule before)
        with grown show ?thesis by blast
      next
        case 2
        with new show ?thesis by simp
      qed
    qed
  qed
qed

lemma count_list_distinct: "distinct xs \<Longrightarrow> x \<in> set xs \<Longrightarrow> count_list xs x = 1"
  by (induction xs) auto

lemma rowsOf_distinct: "distinct (rowsOf (foldl addEntry noRelationships es) key)"
proof (cases "map_of (relationshipMap (foldl addEntry noRelationships es)) key")
  case None
  then show ?thesis by (simp add: rowsOf_def)
next
  case (Some rows)
  with foldl_addEntry_invariant [of es] have "distinct rows" by blast
  with Some show ?thesis by (simp add: rowsOf_def)
qed

lemma bindP_eq_Inr: "(bindP a f = Inr y) = (\<exists>x. a = Inr x \<and> f x = Inr y)"
  by (cases a) simp_all

lemma mapP_Inr_set:
  "mapP f xs = Inr ys \<Longrightarrow> y \<in> set ys \<Longrightarrow> \<exists>x \<in> set xs. f x = Inr y"
proof (induction xs arbitrary: ys)
  case Nil
  then show ?case by simp
next
  case (Cons x xs)
  from Cons.prems(1) obtain z zs where z: "f x = Inr z" "mapP f xs = Inr zs" "ys = z # zs"
    by (auto simp: bindP_eq_Inr)
  with Cons.prems(2) Cons.IH [of zs] show ?case by auto
qed

lemma selectorEntry_key:
  "selectorEntry rt kind subtype selector = Inr (key, f, t) \<Longrightarrow> key = kind @ ''-'' @ subtype"
  by (auto simp: selectorEntry_def bindP_eq_Inr)

lemma relationshipEntries_key:
  assumes "relationshipEntries rt model rel = Inr es" and "(key, f, t) \<in> set es"
  shows "CHR ''-'' \<in> set key"
proof -
  from assms(1) obtain kind subtype selectors
    where "es = [] \<or> mapP (selectorEntry rt kind subtype) selectors = Inr es"
    by (auto simp: relationshipEntries_def bindP_eq_Inr split: if_splits)
  with assms(2) have "mapP (selectorEntry rt kind subtype) selectors = Inr es" by auto
  from mapP_Inr_set [OF this assms(2)] obtain selector
    where "selectorEntry rt kind subtype selector = Inr (key, f, t)" by blast
  then have "key = kind @ ''-'' @ subtype" by (rule selectorEntry_key)
  then show ?thesis by simp
qed

lemma responseEntries_key:
  assumes "responseEntries rt model rels = Inr es" and "(key, f, t) \<in> set es"
  shows "CHR ''-'' \<in> set key"
proof -
  from assms(1) obtain ess
    where ess: "mapP (relationshipEntries rt model) rels = Inr ess" "es = concat ess"
    by (auto simp: responseEntries_def bindP_eq_Inr)
  with assms(2) obtain es' where es': "es' \<in> set ess" "(key, f, t) \<in> set es'" by auto
  from mapP_Inr_set [OF ess(1) es'(1)] obtain rel
    where "relationshipEntries rt model rel = Inr es'" by blast
  from relationshipEntries_key [OF this es'(2)] show ?thesis .
qed

lemma Split_not_Nil: "Split s sep \<noteq> []"
  by (induction s) (auto split: list.splits)

lemma length_Split: "sep \<in> set s \<Longrightarrow> 2 \<le> length (Split s sep)"
proof (induction s)
  case Nil
  then show ?case by simp
next
  case (Cons c s)
  show ?case
  proof (cases "c = sep")
    case True
    have "1 \<le> length (Split s sep)"
      using Split_not_Nil [of s sep] by (cases "Split s sep") simp_all
    with True show ?thesis by simp
  next
    case False
    with Cons have "2 \<le> length (Split s sep)" by simp
    with False show ?thesis by (cases "Split s sep") simp_all
  qed
qed

lemma displayRelationshipGroup_table:
  assumes "CHR ''-'' \<in> set key" and "rows \<noteq> []"
  shows "snd (displayRelationshipGroup (key, rows)) = Inr ()
    \<and> tables (fst (displayRelationshipGroup (key, rows))) = [rows]"
proof -
  from length_Split [OF assms(1)] have "2 \<le> length (Split key CHR ''-'')" .
  then have parts: "sliceIndex (Split key CHR ''-'') 0 = Inr (Split key CHR ''-'' ! 0)"
    "sliceIndex (Split key CHR ''-'') (Suc 0) = Inr (Split key CHR ''-'' ! Suc 0)"
    by (simp_all add: sliceIndex_def Split_not_Nil)
  show ?thesis
    using assms(2) by (simp add: displayRelationshipGroup_def parts tables_def Let_def)
qed

lemma forEach_tables:
  assumes "\<forall>entry \<in> set m. snd (body entry) = Inr () \<and> tables (fst (body entry)) = [snd entry]"
  shows "snd (forEach body m) = Inr () \<and> tables (fst (forEach body m)) = map snd m"
  using assms
proof (induction m)
  case Nil
  show ?case by (simp add: tables_def)
next
  case (Cons entry m)
  then have head: "snd (body entry) = Inr ()" "tables (fst (body entry)) = [snd entry]"
    and rest: "snd (forEach body m) = Inr ()" "tables (fst (forEach body m)) = map snd m"
    by simp_all
  from head(1) have "body entry = (fst (body entry), Inr ())" by (metis prod.collapse)
  then have "thenR (body entry) (forEach body m)
      = (fst (body entry) @ fst (forEach body m), snd (forEach body m))"
    by (metis thenR_events)
  with head rest show ?case by (simp add: tables_def)
qed

lemma pass_entries:
  assumes "foldP (addRelationship rt model) rels noRelationships = Inr acc"
  shows "\<exists>es. responseEntries rt model rels = Inr es \<and> acc = foldl addEntry noRelationships es"
  using assms by (auto simp: foldP_addRelationship bindP_eq_Inr)

lemma group_lookup:
  assumes "foldP (addRelationship rt model) rels noRelationships = Inr acc"
    and "(key, rows) \<in> set (relationshipMap acc)"
  shows "map_of (relationshipMap acc) key = Some rows"
proof -
  from pass_entries [OF assms(1)] obtain es
    where "acc = foldl addEntry noRelationships es" by blast
  with foldl_addEntry_invariant [of es] have "distinct (map fst (relationshipMap acc))" by blast
  with assms(2) show ?thesis by simp
qed

lemma relationshipEntries_record:
  "relationshipEntries rt model (relationshipRecord kind subtype model from to)
     = Inr [(kind @ ''-'' @ subtype, from, to)]"
  by (simp add: relationshipEntries_def relationshipRecord_def mapIndex_def selectorEntry_def
      sliceIndex_def Sprintf_s_def)

text \<open>
  Whenever the pass over the relationships does not panic, every key has one group, no
  group is empty, and the rows of a group are pairwise distinct: a table never holds
  the same row twice.
\<close>

theorem relationship_rows_distinct:
  assumes "foldP (addRelationship rt model) rels noRelationships = Inr acc"
  shows "distinct (map fst (relationshipMap acc))
    \<and> (\<forall>entry \<in> set (relationshipMap acc). snd entry \<noteq> [] \<and> distinct (snd entry))"
proof -
  from pass_entries [OF assms] obtain es
    where acc: "acc = foldl addEntry noRelationships es" by blast
  from foldl_addEntry_invariant [of es]
  have keys: "distinct (map fst (relationshipMap acc))"
    and groups: "\<And>key rows. map_of (relationshipMap acc) key = Some rows
          \<Longrightarrow> rows \<noteq> [] \<and> distinct rows"
    unfolding acc by blast+
  have "snd entry \<noteq> [] \<and> distinct (snd entry)" if "entry \<in> set (relationshipMap acc)" for entry
  proof -
    obtain key rows where entry: "entry = (key, rows)" by (cases entry)
    with that group_lookup [OF assms] have "map_of (relationshipMap acc) key = Some rows" by simp
    from groups [OF this] entry show ?thesis by simp
  qed
  with keys show ?thesis by blast
qed

theorem relationship_rows_distinct_witness:
  "foldP (addRelationship exampleRuntime ''m'')
      [relationshipRecord ''edge'' ''binding'' ''m'' ''a'' ''b'',
       relationshipRecord ''edge'' ''binding'' ''m'' ''a'' ''b'',
       relationshipRecord ''edge'' ''binding'' ''m'' ''c'' ''d''] noRelationships
     = Inr (foldl addEntry noRelationships
              [(''edge-binding'', ''a'', ''b''), (''edge-binding'', ''a'', ''b''),
               (''edge-binding'', ''c'', ''d'')])
   \<and> relationshipMap (foldl addEntry noRelationships
              [(''edge-binding'', ''a'', ''b''), (''edge-binding'', ''a'', ''b''),
               (''edge-binding'', ''c'', ''d'')])
       = [(''edge-binding'', [[''a'', ''b''], [''c'', ''d'']])]
   \<and> distinct [[''a'', ''b''], [''c'', ''d'']]"
proof -
  let ?rels = "[relationshipRecord ''edge'' ''binding'' ''m'' ''a'' ''b'',
       relationshipRecord ''edge'' ''binding'' ''m'' ''a'' ''b'',
       relationshipRecord ''edge'' ''binding'' ''m'' ''c'' ''d'']"
  let ?es = "[(''edge-binding'', ''a'', ''b''), (''edge-binding'', ''a'', ''b''),
               (''edge-binding'', ''c'', ''d'')]"
  have entries: "responseEntries exampleRuntime ''m'' ?rels = Inr ?es"
    by (simp add: responseEntries_def relationshipEntries_record)
  have pass: "foldP (addRelationship exampleRuntime ''m'') ?rels noRelationships
      = Inr (foldl addEntry noRelationships ?es)"
    by (simp only: foldP_addRelationship entries bindP.simps)
  have map: "relationshipMap (foldl addEntry noRelationships ?es)
      = [(''edge-binding'', [[''a'', ''b''], [''c'', ''d'']])]"
    by (simp add: addEntry_def noRelationships_def)
  from relationship_rows_distinct [OF pass]
  have "\<forall>entry \<in> set (relationshipMap (foldl addEntry noRelationships ?es)).
          snd entry \<noteq> [] \<and> distinct (snd entry)"
    by blast
  then have "distinct [[''a'', ''b''], [''c'', ''d'']]"
    unfolding map by simp
  with pass map show ?thesis by simp
qed

text \<open>
  When the records of the response can all be read and no two different entries
  concatenate to the same key of \<^verbatim>\<open>seen\<close>, every entry of the current model has its row in
  the group of its key exactly once, however often it occurs, and the groups hold no
  other rows.
\<close>

theorem relationship_row_exactly_once:
  assumes "responseEntries rt model rels = Inr es"
    and "\<forall>x \<in> set es. \<forall>y \<in> set es. seenKey x = seenKey y \<longrightarrow> x = y"
  shows "\<exists>acc. foldP (addRelationship rt model) rels noRelationships = Inr acc
    \<and> (\<forall>key f t. (key, f, t) \<in> set es \<longrightarrow> count_list (rowsOf acc key) [f, t] = 1)
    \<and> (\<forall>key row. row \<in> set (rowsOf acc key) \<longrightarrow> (\<exists>f t. row = [f, t] \<and> (key, f, t) \<in> set es))"
proof -
  define acc where "acc = foldl addEntry noRelationships es"
  have pass: "foldP (addRelationship rt model) rels noRelationships = Inr acc"
    by (simp add: foldP_addRelationship assms(1) acc_def)
  have once: "count_list (rowsOf acc key) [f, t] = 1" if "(key, f, t) \<in> set es" for key f t
  proof -
    from foldl_addEntry_present [OF assms(2)] that
    have "[f, t] \<in> set (rowsOf acc key)" unfolding acc_def by blast
    with rowsOf_distinct [of es key] show ?thesis
      unfolding acc_def by (simp add: count_list_distinct)
  qed
  have only: "\<exists>f t. row = [f, t] \<and> (key, f, t) \<in> set es" if "row \<in> set (rowsOf acc key)" for key row
  proof (cases "map_of (relationshipMap acc) key")
    case None
    with that show ?thesis by (simp add: rowsOf_def)
  next
    case (Some rows)
    with that have "row \<in> set rows" by (simp add: rowsOf_def)
    with foldl_addEntry_invariant [of es] Some show ?thesis unfolding acc_def by blast
  qed
  from pass once only show ?thesis by blast
qed

theorem relationship_row_exactly_once_witness:
  "\<exists>acc. foldP (addRelationship exampleRuntime ''m'')
        [relationshipRecord ''edge'' ''binding'' ''m'' ''a'' ''b'',
         (''Version'', JStr ''v2'') # relationshipRecord ''edge'' ''binding'' ''m'' ''a'' ''b'',
         relationshipRecord ''edge'' ''binding'' ''m'' ''c'' ''d''] noRelationships = Inr acc
     \<and> count_list (rowsOf acc ''edge-binding'') [''a'', ''b''] = 1
     \<and> count_list (rowsOf acc ''edge-binding'') [''c'', ''d''] = 1"
proof -
  let ?rels = "[relationshipRecord ''edge'' ''binding'' ''m'' ''a'' ''b'',
         (''Version'', JStr ''v2'') # relationshipRecord ''edge'' ''binding'' ''m'' ''a'' ''b'',
         relationshipRecord ''edge'' ''binding'' ''m'' ''c'' ''d'']"
  let ?es = "[(''edge-binding'', ''a'', ''b''), (''edge-binding'', ''a'', ''b''),
               (''edge-binding'', ''c'', ''d'')]"
  have extra: "relationshipEntries exampleRuntime ''m''
        ((''Version'', JStr ''v2'') # relationshipRecord ''edge'' ''binding'' ''m'' ''a'' ''b'')
      = Inr [(''edge-binding'', ''a'', ''b'')]"
    by (simp add: relationshipEntries_def relationshipRecord_def mapIndex_def selectorEntry_def
        sliceIndex_def Sprintf_s_def)
  have entries: "responseEntries exampleRuntime ''m'' ?rels = Inr ?es"
    by (simp add: responseEntries_def relationshipEntries_record extra)
  have distinct_keys: "\<forall>x \<in> set ?es. \<forall>y \<in> set ?es. seenKey x = seenKey y \<longrightarrow> x = y"
    by (simp add: seenKey_def)
  from relationship_row_exactly_once [OF entries distinct_keys]
  obtain acc where "foldP (addRelationship exampleRuntime ''m'') ?rels noRelationships = Inr acc"
    and "\<forall>key f t. (key, f, t) \<in> set ?es \<longrightarrow> count_list (rowsOf acc key) [f, t] = 1"
    by blast
  then show ?thesis by (intro exI [of _ acc]) simp
qed

text \<open>
  When the pass does not panic, the loop over \<^verbatim>\<open>relationshipMap\<close> does not panic either,
  in whatever order \<^verbatim>\<open>range\<close> visits the groups (every key holds a dash, so
  \<^verbatim>\<open>parts[1]\<close> exists), and the tables it prints are the groups of the map, one table for
  each.
\<close>

theorem relationship_tables_rendered:
  assumes "foldP (addRelationship rt model)
             (SuccessfulRelationships (EntityTypeSummary response)) noRelationships = Inr acc"
    and "\<forall>m. mset (rangeOrder rt m) = mset m"
  shows "snd (displaySuccessfulRelationships rt response model) = Inr ()
    \<and> mset (tables (fst (displaySuccessfulRelationships rt response model)))
        = mset (map snd (relationshipMap acc))"
proof (cases "SuccessfulRelationships (EntityTypeSummary response) = []")
  case True
  with assms(1) have "relationshipMap acc = []" by (auto simp: noRelationships_def)
  with True show ?thesis by (simp add: tables_def)
next
  case False
  let ?m = "rangeOrder rt (relationshipMap acc)"
  from pass_entries [OF assms(1)] obtain es
    where es: "responseEntries rt model (SuccessfulRelationships (EntityTypeSummary response)) = Inr es"
      and acc: "acc = foldl addEntry noRelationships es" by blast
  from assms(2) have perm: "mset ?m = mset (relationshipMap acc)" by blast
  then have same: "set ?m = set (relationshipMap acc)" by (rule mset_eq_setD)
  have run: "displaySuccessfulRelationships rt response model = forEach displayRelationshipGroup ?m"
    using False assms(1) by (simp add: displaySuccessfulRelationships_def noRelationships_def)
  have "snd (displayRelationshipGroup entry) = Inr ()
      \<and> tables (fst (displayRelationshipGroup entry)) = [snd entry]" if "entry \<in> set ?m" for entry
  proof -
    obtain key rows where entry: "entry = (key, rows)" by (cases entry)
    with that same have "(key, rows) \<in> set (relationshipMap acc)" by simp
    from group_lookup [OF assms(1) this] have look: "map_of (relationshipMap acc) key = Some rows" .
    with foldl_addEntry_invariant [of es] have rows: "rows \<noteq> []"
      and from_es: "\<forall>row \<in> set rows. \<exists>f t. row = [f, t] \<and> (key, f, t) \<in> set es"
      unfolding acc by blast+
    from rows obtain row where "row \<in> set rows" by (cases rows) auto
    with from_es obtain f t where "(key, f, t) \<in> set es" by blast
    from responseEntries_key [OF es this] have "CHR ''-'' \<in> set key" .
    from displayRelationshipGroup_table [OF this rows] entry show ?thesis by simp
  qed
  then have "snd (forEach displayRelationshipGroup ?m) = Inr ()
      \<and> tables (fst (forEach displayRelationshipGroup ?m)) = map snd ?m"
    by (intro forEach_tables) blast
  moreover have "mset (map snd ?m) = mset (map snd (relationshipMap acc))"
    using perm by (metis mset_map)
  ultimately show ?thesis by (simp add: run)
qed

theorem relationship_tables_rendered_witness:
  "snd (displaySuccessfulRelationships exampleRuntime
          (responseWith [''m''] (noEntities\<lparr>SuccessfulRelationships :=
             [relationshipRecord ''edge'' ''binding'' ''m'' ''a'' ''b'',
              relationshipRecord ''hierarchical'' ''parent'' ''m'' ''c'' ''d'']\<rparr>)) ''m'') = Inr ()
   \<and> mset (tables (fst (displaySuccessfulRelationships exampleRuntime
          (responseWith [''m''] (noEntities\<lparr>SuccessfulRelationships :=
             [relationshipRecord ''edge'' ''binding'' ''m'' ''a'' ''b'',
              relationshipRecord ''hierarchical'' ''parent'' ''m'' ''c'' ''d'']\<rparr>)) ''m'')))
       = {#[[''a'', ''b'']], [[''c'', ''d'']]#}"
proof -
  let ?rels = "[relationshipRecord ''edge'' ''binding'' ''m'' ''a'' ''b'',
                relationshipRecord ''hierarchical'' ''parent'' ''m'' ''c'' ''d'']"
  let ?r = "responseWith [''m''] (noEntities\<lparr>SuccessfulRelationships := ?rels\<rparr>)"
  let ?es = "[(''edge-binding'', ''a'', ''b''), (''hierarchical-parent'', ''c'', ''d'')]"
  have entries: "responseEntries exampleRuntime ''m'' ?rels = Inr ?es"
    by (simp add: responseEntries_def relationshipEntries_record)
  have "foldP (addRelationship exampleRuntime ''m'') ?rels noRelationships
      = Inr (foldl addEntry noRelationships ?es)"
    by (simp only: foldP_addRelationship entries bindP.simps)
  then have pass: "foldP (addRelationship exampleRuntime ''m'')
      (SuccessfulRelationships (EntityTypeSummary ?r)) noRelationships
      = Inr (foldl addEntry noRelationships ?es)"
    by simp
  have perm: "\<forall>m. mset (rangeOrder exampleRuntime m) = mset m"
    by (simp add: exampleRuntime_def)
  have map: "relationshipMap (foldl addEntry noRelationships ?es)
      = [(''edge-binding'', [[''a'', ''b'']]), (''hierarchical-parent'', [[''c'', ''d'']])]"
    by (simp add: addEntry_def noRelationships_def)
  from relationship_tables_rendered [OF pass perm] show ?thesis
    unfolding map by simp
qed

end
